theory Spec2Isabelle
  imports Complex_Main
begin

section \<open>Samples, ring buffers and the double buffer\<close>

text \<open>
  Audio samples are C++ \<open>float\<close>s.  They are idealised as real numbers throughout: the
  development is about which samples are copied, zeroed, scaled and averaged, not about
  rounding.
\<close>

type_synonym sample = real

text \<open>
  \<open>RingBuffer<float>\<close> comes from \<open>ring.h\<close>, which is not among the sources.  The record
  holds the backing store and the cursor that \<open>pos()\<close> returns.
\<close>

record RingBuffer =
  backing_store :: "sample list"
  current_pos :: nat

definition pos :: "RingBuffer \<Rightarrow> nat" where
  "pos rb = current_pos rb"

text \<open>
  Modelled from the spec: \<open>RingBuffer::resize\<close> (\<open>ring.h\<close> is missing).  The working set
  is rebuilt wholesale and every ring buffer gets a backing store of \<open>capacity\<close> samples; a
  rebuilt buffer is silent with its cursor at the start.
\<close>

definition resize_ring :: "nat \<Rightarrow> RingBuffer \<Rightarrow> RingBuffer" where
  "resize_ring new_size rb = \<lparr>backing_store = replicate new_size 0, current_pos = 0\<rparr>"

text \<open>
  Modelled from the spec: \<open>RingBuffer::read_n_from\<close> (\<open>ring.h\<close> is missing), the spec's
  \<open>append(samples, count)\<close>: copies the samples into the backing store, wrapping, and
  advances the cursor by their number.  The spec requires \<open>count \<le> capacity\<close>; the driver
  never asks for more than one hop.
\<close>

fun read_n_from :: "sample list \<Rightarrow> RingBuffer \<Rightarrow> RingBuffer" where
  "read_n_from [] rb = rb"
| "read_n_from (x # src) rb =
     read_n_from src
       (rb\<lparr>backing_store := (backing_store rb)[current_pos rb := x],
           current_pos := (current_pos rb + 1) mod length (backing_store rb)\<rparr>)"

text \<open>
  Modelled from the spec: \<open>RingBuffer::copy_n_to\<close> (\<open>ring.h\<close> is missing), the spec's
  \<open>consume(dst, count, clearAfterRead)\<close>: copies out \<open>count\<close> samples from the cursor on,
  optionally zeroing them after the read, and advances the cursor.
\<close>

fun copy_n_to :: "nat \<Rightarrow> bool \<Rightarrow> RingBuffer \<Rightarrow> sample list \<times> RingBuffer" where
  "copy_n_to 0 clear rb = ([], rb)"
| "copy_n_to (Suc num) clear rb =
     (let x = backing_store rb ! current_pos rb;
          rb' = rb\<lparr>backing_store := (if clear then (backing_store rb)[current_pos rb := 0] else backing_store rb),
                    current_pos := (current_pos rb + 1) mod length (backing_store rb)\<rparr>;
          (dst, rb'') = copy_n_to num clear rb'
      in (x # dst, rb''))"

text \<open>
  Modelled from the spec: \<open>RingBuffer::copy_last_n_to\<close> (\<open>ring.h\<close> is missing), the spec's
  \<open>snapshotLast(dst, count)\<close>: the most recent \<open>count \<le> capacity\<close> samples, oldest first,
  without mutating the buffer.
\<close>

definition copy_last_n_to :: "nat \<Rightarrow> RingBuffer \<Rightarrow> sample list" where
  "copy_last_n_to num rb =
     map (\<lambda>i. backing_store rb ! ((current_pos rb + length (backing_store rb) - num + i) mod length (backing_store rb)))
       [0..<num]"

text \<open>
  Modelled from the spec: \<open>RingBuffer::add_n_from_in_place\<close> (\<open>ring.h\<close> is missing), the
  spec's \<open>overlapAdd(src, count, gain)\<close>: adds \<open>gain * src[i]\<close> into the next \<open>count\<close> slots
  starting at the cursor and advances the cursor by \<open>count\<close>.  The processor only ever
  deposits a whole window (\<open>count = capacity\<close>), which leaves the cursor where it was.
\<close>

fun add_n_from_in_place :: "sample list \<Rightarrow> sample \<Rightarrow> RingBuffer \<Rightarrow> RingBuffer" where
  "add_n_from_in_place [] gain rb = rb"
| "add_n_from_in_place (x # src) gain rb =
     add_n_from_in_place src gain
       (rb\<lparr>backing_store := (backing_store rb)[current_pos rb := backing_store rb ! current_pos rb + gain * x],
           current_pos := (current_pos rb + 1) mod length (backing_store rb)\<rparr>)"

text \<open>
  Modelled from the spec: \<open>RingBuffer::read_n_from_in_place\<close> (\<open>ring.h\<close> is missing).  The
  spec does not list it among the buffer's operations; it says of the bypassed stage that
  it "copies input straight to output".  It is \<open>read_n_from\<close> with the cursor left where
  it was, so that the samples written are the ones the driver consumes next.
\<close>

definition read_n_from_in_place :: "sample list \<Rightarrow> RingBuffer \<Rightarrow> RingBuffer" where
  "read_n_from_in_place src rb = (read_n_from src rb)\<lparr>current_pos := current_pos rb\<rparr>"

text \<open>
  Modelled from the spec: \<open>AtomicallySwappable<T>\<close> (\<open>utils.h\<close> is missing), the spec's
  DoubleBufferedState.  \<open>modify_and_swap\<close> rebuilds the inactive object and marks it ready;
  \<open>get\<close> makes a ready object current (otherwise it is a no-op) and the caller then works
  on the active object; \<open>clear\<close> releases both objects.
\<close>

record 'a AtomicallySwappable =
  active :: 'a
  inactive :: 'a
  needs_swap :: bool

definition get :: "'a AtomicallySwappable \<Rightarrow> 'a AtomicallySwappable" where
  "get s = (if needs_swap s
            then s\<lparr>active := inactive s, inactive := active s, needs_swap := False\<rparr>
            else s)"

definition modify_and_swap :: "('a \<Rightarrow> 'a) \<Rightarrow> 'a AtomicallySwappable \<Rightarrow> 'a AtomicallySwappable" where
  "modify_and_swap modify_fn s = s\<lparr>inactive := modify_fn (inactive s), needs_swap := True\<rparr>"

section \<open>The compressor bank\<close>

text \<open>
  \<open>juce::dsp::Compressor<float>\<close> belongs to the JUCE library.  The record keeps what its
  setters store and the per-channel memory of its envelope follower.  A default
  constructed compressor has JUCE's defaults.
\<close>

record Compressor =
  thresholddB :: real
  ratio :: real
  attackTime :: real
  releaseTime :: real
  sampleRate :: real
  envelope :: "real list"

definition default_compressor :: Compressor where
  "default_compressor =
     \<lparr>thresholddB = 0, ratio = 1, attackTime = 1, releaseTime = 100,
      sampleRate = 44100, envelope = []\<rparr>"

definition setThreshold :: "real \<Rightarrow> Compressor \<Rightarrow> Compressor" where
  "setThreshold newThreshold c = c\<lparr>thresholddB := newThreshold\<rparr>"

definition setRatio :: "real \<Rightarrow> Compressor \<Rightarrow> Compressor" where
  "setRatio newRatio c = c\<lparr>ratio := newRatio\<rparr>"

definition setAttack :: "real \<Rightarrow> Compressor \<Rightarrow> Compressor" where
  "setAttack newAttack c = c\<lparr>attackTime := newAttack\<rparr>"

definition setRelease :: "real \<Rightarrow> Compressor \<Rightarrow> Compressor" where
  "setRelease newRelease c = c\<lparr>releaseTime := newRelease\<rparr>"

text \<open>
  \<open>prepare\<close> takes the \<open>ProcessSpec\<close>'s sample rate, maximum block size and channel count;
  it stores the rate and resets the envelope follower (the source's comment says so).
\<close>

definition prepare :: "real \<Rightarrow> nat \<Rightarrow> nat \<Rightarrow> Compressor \<Rightarrow> Compressor" where
  "prepare specSampleRate maximumBlockSize numChannels c =
     c\<lparr>sampleRate := specSampleRate, envelope := replicate numChannels 0\<rparr>"

text \<open>
  The JUCE routines the processor calls are parameters of the model: the compressor's
  \<open>processSample\<close> (it returns the compressed value and the new envelope memory), the two
  real-only transforms on the interleaved scratch buffer, and the Hann table of a
  \<open>WindowingFunction\<close> of a given size.
\<close>

record Juce =
  ballistics :: "Compressor \<Rightarrow> nat \<Rightarrow> real \<Rightarrow> real \<times> real list"
  performRealOnlyForwardTransform :: "nat \<Rightarrow> bool \<Rightarrow> real list \<Rightarrow> real list"
  performRealOnlyInverseTransform :: "nat \<Rightarrow> real list \<Rightarrow> real list"
  windowing_table :: "nat \<Rightarrow> real list"

definition processSample :: "Juce \<Rightarrow> nat \<Rightarrow> real \<Rightarrow> Compressor \<Rightarrow> real \<times> Compressor" where
  "processSample juce channel x c =
     (let (y, env) = ballistics juce c channel x in (y, c\<lparr>envelope := env\<rparr>))"

definition multiplyWithWindowingTable :: "real list \<Rightarrow> real list \<Rightarrow> nat \<Rightarrow> real list" where
  "multiplyWithWindowingTable table samples num =
     map (\<lambda>i. if i < num \<and> i < length table then samples ! i * table ! i else samples ! i)
       [0..<length samples]"

section \<open>The working set and the processor\<close>

text \<open>
  \<open>windowing_function\<close> and \<open>fft\<close> are optional JUCE objects that every rebuild
  engages; the record keeps the table size and the order they were built with.  The type
  of \<open>num_windows_processed\<close> is declared in a header that is not among the sources; it is
  a counter that only grows, kept here without an upper bound.
\<close>

record ProcessData =
  fft_window_size :: nat
  num_windows_processed :: nat
  windowing_function :: nat
  fft :: nat
  fft_scratch_buffer :: "real list"
  spectral_compressors :: "Compressor list"
  spectral_compressor_sidechain_thresholds :: "real list"
  input_ring_buffers :: "RingBuffer list"
  output_ring_buffers :: "RingBuffer list"
  sidechain_ring_buffers :: "RingBuffer list"

definition empty_process_data :: ProcessData where
  "empty_process_data =
     \<lparr>fft_window_size = 0, num_windows_processed = 0, windowing_function = 0, fft = 0,
      fft_scratch_buffer = [],
      spectral_compressors = [], spectral_compressor_sidechain_thresholds = [],
      input_ring_buffers = [], output_ring_buffers = [], sidechain_ring_buffers = []\<rparr>"

text \<open>
  The processor: the host's parameters and bus layout as the processor reads them, the
  latency it last reported, its own members, and whether \<open>process_data_updater\<close> has been
  triggered and has not run yet.
\<close>

record Processor =
  sidechain_active :: bool
  compressor_ratio :: real
  compressor_attack_ms :: real
  compressor_release_ms :: real
  auto_makeup_gain :: bool
  fft_order :: nat
  windowing_overlap_times :: nat
  getSampleRate :: real
  getMainBusNumInputChannels :: nat
  getMainBusNumOutputChannels :: nat
  getLatencySamples :: nat
  max_samples_per_block :: nat
  makeup_gain :: real
  compressor_settings_changed :: bool
  process_data :: "ProcessData AtomicallySwappable"
  async_update_triggered :: bool

text \<open>\<open>std::vector::resize\<close>: keeps the leading elements, value-initialises new ones.\<close>

definition resize_vector :: "nat \<Rightarrow> 'a \<Rightarrow> 'a list \<Rightarrow> 'a list" where
  "resize_vector new_size fresh xs = take new_size xs @ replicate (new_size - length xs) fresh"

subsection \<open>update_compressors\<close>

definition effective_sample_rate :: "Processor \<Rightarrow> ProcessData \<Rightarrow> real" where
  "effective_sample_rate p pd =
     getSampleRate p / (real (fft_window_size pd) / real (windowing_overlap_times p))"

definition configure_compressor :: "Processor \<Rightarrow> ProcessData \<Rightarrow> Compressor \<Rightarrow> Compressor" where
  "configure_compressor p pd compressor =
     prepare (effective_sample_rate p pd) (max_samples_per_block p) (getMainBusNumInputChannels p)
       (setRelease (compressor_release_ms p)
         (setAttack (compressor_attack_ms p)
           (setRatio (compressor_ratio p) compressor)))"

definition base_threshold_dbfs :: real where
  "base_threshold_dbfs = 0"

definition pink_noise_threshold :: "Processor \<Rightarrow> ProcessData \<Rightarrow> nat \<Rightarrow> real" where
  "pink_noise_threshold p pd compressor_idx =
     (let frequency_increment = getSampleRate p / real (fft_window_size pd);
          bin_idx = compressor_idx + 1;
          frequency = frequency_increment * real bin_idx;
          octave = log 2 (frequency + 2)
      in (base_threshold_dbfs + 3) - (3 * octave))"

definition new_makeup_gain :: "Processor \<Rightarrow> real" where
  "new_makeup_gain p =
     (let gain = 1 / real (windowing_overlap_times p)
      in if auto_makeup_gain p
         then (if sidechain_active p
               then gain * ((compressor_ratio p + 24) / 25)
               else gain * ((log 10 (compressor_ratio p * 100) * 200) - 399))
         else gain)"

definition update_compressors :: "Processor \<Rightarrow> ProcessData \<Rightarrow> Processor \<times> ProcessData" where
  "update_compressors p pd =
     (let configured = map (configure_compressor p pd) (spectral_compressors pd);
          compressors =
            (if \<not> sidechain_active p
             then map (\<lambda>compressor_idx.
                         setThreshold (pink_noise_threshold p pd compressor_idx)
                           (configured ! compressor_idx))
                    [0..<length configured]
             else configured)
      in (p\<lparr>makeup_gain := new_makeup_gain p\<rparr>, pd\<lparr>spectral_compressors := compressors\<rparr>))"

subsection \<open>The host's buffer\<close>

text \<open>
  A \<open>juce::AudioBuffer<float>\<close>: one array of \<open>getNumSamples\<close> samples per channel.  The
  processor works in place.  \<open>getBusBuffer(buffer, true, 0)\<close> is a view of the main bus,
  the first \<open>getMainBusNumInputChannels\<close> channels; \<open>getBusBuffer(buffer, true, 1)\<close> is a
  view of the sidechain bus, the channels that follow them.
\<close>

record AudioBuffer =
  channel_data :: "sample list list"
  getNumSamples :: nat

definition read_pointer :: "AudioBuffer \<Rightarrow> nat \<Rightarrow> nat \<Rightarrow> nat \<Rightarrow> sample list" where
  "read_pointer buffer channel sample_offset num =
     take num (drop sample_offset (channel_data buffer ! channel))"

definition write_pointer :: "nat \<Rightarrow> nat \<Rightarrow> sample list \<Rightarrow> AudioBuffer \<Rightarrow> AudioBuffer" where
  "write_pointer channel sample_offset dst buffer =
     buffer\<lparr>channel_data :=
       (channel_data buffer)
         [channel := take sample_offset (channel_data buffer ! channel) @ dst
                     @ drop (sample_offset + length dst) (channel_data buffer ! channel)]\<rparr>"

definition clear_samples :: "nat \<Rightarrow> nat \<Rightarrow> nat \<Rightarrow> AudioBuffer \<Rightarrow> AudioBuffer" where
  "clear_samples channel sample_offset num buffer =
     write_pointer channel sample_offset (replicate num 0) buffer"

text \<open>Writing \<open>dst\<close> through \<open>fft_scratch_buffer.data()\<close>: the front of the scratch buffer.\<close>

definition store_front :: "real list \<Rightarrow> real list \<Rightarrow> real list" where
  "store_front dst scratch = dst @ drop (length dst) scratch"

subsection \<open>The window stage of processBlock\<close>

text \<open>
  The scratch buffer interleaves real and imaginary parts; \<open>fft_buffer[bin_idx]\<close> is the
  pair at \<open>2 * bin_idx\<close> and \<open>2 * bin_idx + 1\<close>, and \<open>std::abs\<close> its modulus.
\<close>

definition bin_magnitude :: "real list \<Rightarrow> nat \<Rightarrow> real" where
  "bin_magnitude scratch bin_idx =
     sqrt ((scratch ! (2 * bin_idx)) ^ 2 + (scratch ! (2 * bin_idx + 1)) ^ 2)"

definition accumulate_magnitude :: "real list \<Rightarrow> nat \<Rightarrow> real list \<Rightarrow> real list" where
  "accumulate_magnitude scratch compressor_idx thresholds =
     (let bin_idx = compressor_idx + 1;
          magnitude = bin_magnitude scratch bin_idx
      in thresholds[compressor_idx := thresholds ! compressor_idx + magnitude])"

definition accumulate_sidechain_channel :: "Juce \<Rightarrow> nat \<Rightarrow> ProcessData \<Rightarrow> ProcessData" where
  "accumulate_sidechain_channel juce channel pd =
     (let scratch1 = store_front
                       (copy_last_n_to (fft_window_size pd) (sidechain_ring_buffers pd ! channel))
                       (fft_scratch_buffer pd);
          scratch2 = performRealOnlyForwardTransform juce (fft pd) True scratch1
      in pd\<lparr>fft_scratch_buffer := scratch2,
            spectral_compressor_sidechain_thresholds :=
              fold (accumulate_magnitude scratch2) [0..<length (spectral_compressors pd)]
                (spectral_compressor_sidechain_thresholds pd)\<rparr>)"

definition set_sidechain_threshold :: "nat \<Rightarrow> nat \<Rightarrow> ProcessData \<Rightarrow> ProcessData" where
  "set_sidechain_threshold input_channels compressor_idx pd =
     pd\<lparr>spectral_compressors :=
          (spectral_compressors pd)
            [compressor_idx :=
               setThreshold
                 (spectral_compressor_sidechain_thresholds pd ! compressor_idx / real input_channels)
                 (spectral_compressors pd ! compressor_idx)],
        spectral_compressor_sidechain_thresholds :=
          (spectral_compressor_sidechain_thresholds pd)[compressor_idx := 0]\<rparr>"

definition sidechain_stage :: "Juce \<Rightarrow> nat \<Rightarrow> ProcessData \<Rightarrow> ProcessData" where
  "sidechain_stage juce input_channels pd =
     (let pd1 = fold (accumulate_sidechain_channel juce) [0..<input_channels] pd
      in fold (set_sidechain_threshold input_channels) [0..<length (spectral_compressors pd1)] pd1)"

definition compression_multiplier :: "real \<Rightarrow> real \<Rightarrow> real" where
  "compression_multiplier magnitude compressed_magnitude =
     (if magnitude \<noteq> 0 then compressed_magnitude / magnitude else 1)"

definition compress_bin :: "Juce \<Rightarrow> nat \<Rightarrow> nat \<Rightarrow> ProcessData \<Rightarrow> ProcessData" where
  "compress_bin juce channel compressor_idx pd =
     (let bin_idx = compressor_idx + 1;
          scratch = fft_scratch_buffer pd;
          magnitude = bin_magnitude scratch bin_idx;
          (compressed_magnitude, compressor) =
             processSample juce channel magnitude (spectral_compressors pd ! compressor_idx);
          multiplier = compression_multiplier magnitude compressed_magnitude
      in pd\<lparr>spectral_compressors := (spectral_compressors pd)[compressor_idx := compressor],
            fft_scratch_buffer :=
              scratch[2 * bin_idx := scratch ! (2 * bin_idx) * multiplier,
                      2 * bin_idx + 1 := scratch ! (2 * bin_idx + 1) * multiplier]\<rparr>)"

definition compress_bins :: "Juce \<Rightarrow> nat \<Rightarrow> ProcessData \<Rightarrow> ProcessData" where
  "compress_bins juce channel pd =
     fold (compress_bin juce channel) [0..<length (spectral_compressors pd)] pd"

definition process_channel :: "Juce \<Rightarrow> Processor \<Rightarrow> nat \<Rightarrow> ProcessData \<Rightarrow> ProcessData" where
  "process_channel juce p channel pd =
     (let table = windowing_table juce (windowing_function pd);
          scratch1 = store_front
                       (copy_last_n_to (fft_window_size pd) (input_ring_buffers pd ! channel))
                       (fft_scratch_buffer pd);
          scratch2 = multiplyWithWindowingTable table scratch1 (fft_window_size pd);
          scratch3 = performRealOnlyForwardTransform juce (fft pd) False scratch2;
          pd1 = compress_bins juce channel (pd\<lparr>fft_scratch_buffer := scratch3\<rparr>);
          scratch4 = performRealOnlyInverseTransform juce (fft pd1) (fft_scratch_buffer pd1);
          scratch5 = multiplyWithWindowingTable table scratch4 (fft_window_size pd1)
      in pd1\<lparr>fft_scratch_buffer := scratch5,
             output_ring_buffers :=
               (output_ring_buffers pd1)
                 [channel := add_n_from_in_place (take (fft_window_size pd1) scratch5)
                               (makeup_gain p) (output_ring_buffers pd1 ! channel)]\<rparr>)"

text \<open>The function object that \<open>processBlock\<close> hands to \<open>do_stft\<close>.\<close>

definition process_window :: "Juce \<Rightarrow> Processor \<Rightarrow> ProcessData \<Rightarrow> nat \<Rightarrow> ProcessData" where
  "process_window juce p pd input_channels =
     fold (process_channel juce p) [0..<input_channels]
       (if sidechain_active p then sidechain_stage juce input_channels pd else pd)"

text \<open>The function object that \<open>processBlockBypassed\<close> hands to \<open>do_stft\<close>.\<close>

definition bypass_channel :: "nat \<Rightarrow> nat \<Rightarrow> ProcessData \<Rightarrow> ProcessData" where
  "bypass_channel windowing_interval channel pd =
     (let scratch = store_front
                      (copy_last_n_to windowing_interval (input_ring_buffers pd ! channel))
                      (fft_scratch_buffer pd)
      in pd\<lparr>fft_scratch_buffer := scratch,
            output_ring_buffers :=
              (output_ring_buffers pd)
                [channel := read_n_from_in_place (take windowing_interval scratch)
                              (output_ring_buffers pd ! channel)]\<rparr>)"

definition bypass_window :: "Processor \<Rightarrow> ProcessData \<Rightarrow> nat \<Rightarrow> ProcessData" where
  "bypass_window p pd input_channels =
     (let windowing_interval = fft_window_size pd div windowing_overlap_times p
      in fold (bypass_channel windowing_interval) [0..<input_channels] pd)"

subsection \<open>do_stft\<close>

text \<open>
  The driver's result carries a log of what it did, in order: \<open>Synced offset num\<close> when
  it copied the samples \<open>[offset, offset + num)\<close> of every channel in and out, \<open>Windowed\<close>
  when it invoked \<open>process_fn\<close>.  The log is not in the source; it lets the schedule be
  stated.
\<close>

datatype stft_event = Synced nat nat | Windowed

text \<open>
  The body of the two channel loops (they differ in the offset only): the input ring
  buffer reads the samples, the host receives matured output or silence, and the
  sidechain ring buffer reads its samples when sidechaining is active.
\<close>

definition sync_channel ::
  "Processor \<Rightarrow> nat \<Rightarrow> nat \<Rightarrow> nat \<Rightarrow> AudioBuffer \<times> ProcessData \<Rightarrow> AudioBuffer \<times> ProcessData" where
  "sync_channel p sample_buffer_offset num channel = (\<lambda>(buffer, pd).
     (let input_channels = getMainBusNumInputChannels p;
          pd1 = pd\<lparr>input_ring_buffers :=
                  (input_ring_buffers pd)
                    [channel := read_n_from (read_pointer buffer channel sample_buffer_offset num)
                                  (input_ring_buffers pd ! channel)]\<rparr>;
          (buffer2, pd2) =
            (if num_windows_processed pd1 \<ge> windowing_overlap_times p
             then (let (dst, ring) = copy_n_to num True (output_ring_buffers pd1 ! channel)
                   in (write_pointer channel sample_buffer_offset dst buffer,
                       pd1\<lparr>output_ring_buffers := (output_ring_buffers pd1)[channel := ring]\<rparr>))
             else (clear_samples channel sample_buffer_offset num buffer, pd1))
      in (buffer2,
          if sidechain_active p
          then pd2\<lparr>sidechain_ring_buffers :=
                 (sidechain_ring_buffers pd2)
                   [channel := read_n_from
                                 (read_pointer buffer2 (input_channels + channel)
                                    sample_buffer_offset num)
                                 (sidechain_ring_buffers pd2 ! channel)]\<rparr>
          else pd2)))"

definition sync_channels ::
  "Processor \<Rightarrow> nat \<Rightarrow> nat \<Rightarrow> AudioBuffer \<times> ProcessData \<Rightarrow> AudioBuffer \<times> ProcessData" where
  "sync_channels p sample_buffer_offset num =
     fold (sync_channel p sample_buffer_offset num) [0..<getMainBusNumInputChannels p]"

text \<open>
  The window loop, by the number of windows still to process.  The arguments after it
  are \<open>windowing_interval\<close> and \<open>sample_buffer_offset\<close>.
\<close>

fun process_windows ::
  "Processor \<Rightarrow> (ProcessData \<Rightarrow> nat \<Rightarrow> ProcessData) \<Rightarrow> nat \<Rightarrow> nat \<Rightarrow> nat
   \<Rightarrow> AudioBuffer \<times> ProcessData \<Rightarrow> stft_event list \<times> AudioBuffer \<times> ProcessData" where
  "process_windows p process_fn windowing_interval 0 sample_buffer_offset (buffer, pd) =
     ([], buffer, pd)"
| "process_windows p process_fn windowing_interval (Suc windows) sample_buffer_offset (buffer, pd) =
     (let pd1 = process_fn pd (getMainBusNumInputChannels p);
          pd2 = pd1\<lparr>num_windows_processed := num_windows_processed pd1 + 1\<rparr>;
          samples_to_process_this_iteration =
            min windowing_interval (getNumSamples buffer - sample_buffer_offset);
          (events, result) =
            process_windows p process_fn windowing_interval windows
              (sample_buffer_offset + samples_to_process_this_iteration)
              (sync_channels p sample_buffer_offset samples_to_process_this_iteration (buffer, pd2))
      in (Windowed # Synced sample_buffer_offset samples_to_process_this_iteration # events,
          result))"

definition windowing_interval :: "Processor \<Rightarrow> ProcessData \<Rightarrow> nat" where
  "windowing_interval p pd = fft_window_size pd div windowing_overlap_times p"

definition already_processed_samples :: "Processor \<Rightarrow> AudioBuffer \<Rightarrow> ProcessData \<Rightarrow> nat" where
  "already_processed_samples p buffer pd =
     min (getNumSamples buffer)
       ((windowing_interval p pd
         - (pos (input_ring_buffers pd ! 0) mod windowing_interval p pd))
        mod windowing_interval p pd)"

text \<open>
  \<open>std::ceil\<close> of the float quotient, idealised as the ceiling of the real quotient (the
  float quotient of two counts below \<open>2 ^ 24\<close> has the same ceiling).
\<close>

definition windows_to_process :: "Processor \<Rightarrow> AudioBuffer \<Rightarrow> ProcessData \<Rightarrow> nat" where
  "windows_to_process p buffer pd =
     (let samples_to_be_processed = getNumSamples buffer - already_processed_samples p buffer pd
      in nat \<lceil>real samples_to_be_processed / real (windowing_interval p pd)\<rceil>)"

definition do_stft ::
  "Processor \<Rightarrow> (ProcessData \<Rightarrow> nat \<Rightarrow> ProcessData) \<Rightarrow> AudioBuffer \<Rightarrow> ProcessData
   \<Rightarrow> stft_event list \<times> AudioBuffer \<times> ProcessData" where
  "do_stft p process_fn buffer pd =
     (let input_channels = getMainBusNumInputChannels p;
          output_channels = getMainBusNumOutputChannels p;
          num_samples = getNumSamples buffer;
          cleared = fold (\<lambda>channel. clear_samples channel 0 num_samples)
                      [input_channels..<output_channels] buffer;
          already = already_processed_samples p buffer pd;
          windows = windows_to_process p buffer pd;
          (events, result) =
            process_windows p process_fn (windowing_interval p pd) windows
              (if already > 0 then already else 0)
              (if already > 0 then sync_channels p 0 already (cleared, pd) else (cleared, pd))
      in ((if already > 0 then [Synced 0 already] else []) @ events, result))"

subsection \<open>The processor's entry points\<close>

definition processBlockBypassed :: "AudioBuffer \<Rightarrow> Processor \<Rightarrow> AudioBuffer \<times> Processor" where
  "processBlockBypassed buffer p =
     (let swappable = get (process_data p);
          (events, buffer', pd) = do_stft p (bypass_window p) buffer (active swappable)
      in (buffer', p\<lparr>process_data := swappable\<lparr>active := pd\<rparr>\<rparr>))"

text \<open>
  \<open>compare_exchange_strong(expected, false)\<close> with \<open>expected = true\<close>: when the flag is
  set it is cleared and the compressors are updated.
\<close>

definition apply_compressor_settings :: "Processor \<Rightarrow> Processor" where
  "apply_compressor_settings p =
     (let swappable = get (process_data p)
      in if compressor_settings_changed p
         then (let (p', pd) = update_compressors (p\<lparr>compressor_settings_changed := False\<rparr>)
                                (active swappable)
               in p'\<lparr>process_data := swappable\<lparr>active := pd\<rparr>\<rparr>)
         else p\<lparr>process_data := swappable\<rparr>)"

definition processBlock :: "Juce \<Rightarrow> AudioBuffer \<Rightarrow> Processor \<Rightarrow> AudioBuffer \<times> Processor" where
  "processBlock juce buffer p =
     (let p1 = apply_compressor_settings p;
          (events, buffer', pd) =
             do_stft p1 (process_window juce p1) buffer (active (process_data p1))
      in (buffer', p1\<lparr>process_data := (process_data p1)\<lparr>active := pd\<rparr>\<rparr>))"

text \<open>The function object of \<open>update_and_swap_process_data\<close>: the rebuild of a working set.\<close>

definition default_ring :: RingBuffer where
  "default_ring = \<lparr>backing_store = [], current_pos = 0\<rparr>"

definition resize_ring_buffers :: "Processor \<Rightarrow> nat \<Rightarrow> RingBuffer list \<Rightarrow> RingBuffer list" where
  "resize_ring_buffers p window_size ring_buffers =
     map (resize_ring window_size)
       (resize_vector (getMainBusNumInputChannels p) default_ring ring_buffers)"

definition rebuild_process_data :: "Processor \<Rightarrow> ProcessData \<Rightarrow> ProcessData" where
  "rebuild_process_data p pd =
     (let window_size = 2 ^ fft_order p;
          compressors = resize_vector (window_size div 2) default_compressor
                          (spectral_compressors pd)
      in pd\<lparr>fft_window_size := window_size,
            num_windows_processed := 0,
            windowing_function := window_size,
            fft := fft_order p,
            fft_scratch_buffer := resize_vector (window_size * 2) 0 (fft_scratch_buffer pd),
            spectral_compressors := compressors,
            spectral_compressor_sidechain_thresholds :=
              resize_vector (length compressors) 0 (spectral_compressor_sidechain_thresholds pd),
            input_ring_buffers := resize_ring_buffers p window_size (input_ring_buffers pd),
            output_ring_buffers := resize_ring_buffers p window_size (output_ring_buffers pd),
            sidechain_ring_buffers :=
              resize_ring_buffers p window_size (sidechain_ring_buffers pd)\<rparr>)"

definition update_and_swap_process_data :: "Processor \<Rightarrow> Processor" where
  "update_and_swap_process_data p =
     p\<lparr>process_data := modify_and_swap (rebuild_process_data p) (process_data p),
       compressor_settings_changed := True\<rparr>"

definition setLatencySamples :: "nat \<Rightarrow> Processor \<Rightarrow> Processor" where
  "setLatencySamples newLatency p = p\<lparr>getLatencySamples := newLatency\<rparr>"

definition prepareToPlay :: "nat \<Rightarrow> Processor \<Rightarrow> Processor" where
  "prepareToPlay maximumExpectedSamplesPerBlock p =
     (let p1 = update_and_swap_process_data
                 (p\<lparr>max_samples_per_block := maximumExpectedSamplesPerBlock\<rparr>)
      in p1\<lparr>process_data := get (process_data p1)\<rparr>)"

text \<open>
  \<open>process_data_updater\<close>, run by the message thread some time after it was triggered, and
  the two parameter listeners.  The host has stored the parameter's new value when a
  listener runs.
\<close>

definition process_data_updater :: "Processor \<Rightarrow> Processor" where
  "process_data_updater p =
     (let p1 = update_and_swap_process_data p;
          new_window_size = 2 ^ fft_order p1
      in (setLatencySamples new_window_size p1)\<lparr>async_update_triggered := False\<rparr>)"

definition fft_order_listener :: "nat \<Rightarrow> Processor \<Rightarrow> Processor" where
  "fft_order_listener newValue p = p\<lparr>fft_order := newValue, async_update_triggered := True\<rparr>"

definition compressor_settings_listener :: "Processor \<Rightarrow> Processor" where
  "compressor_settings_listener p = p\<lparr>compressor_settings_changed := True\<rparr>"

text \<open>
  \<open>setStateInformation\<close>: the parameter values of a valid state blob replace the current
  ones (\<open>None\<close> stands for a blob that does not parse), then the working set is rebuilt
  and the latency reported.
\<close>

record ParameterState =
  state_sidechain_active :: bool
  state_compressor_ratio :: real
  state_compressor_attack_ms :: real
  state_compressor_release_ms :: real
  state_auto_makeup_gain :: bool
  state_fft_order :: nat
  state_windowing_overlap_times :: nat

definition replaceState :: "ParameterState \<Rightarrow> Processor \<Rightarrow> Processor" where
  "replaceState st p =
     p\<lparr>sidechain_active := state_sidechain_active st,
       compressor_ratio := state_compressor_ratio st,
       compressor_attack_ms := state_compressor_attack_ms st,
       compressor_release_ms := state_compressor_release_ms st,
       auto_makeup_gain := state_auto_makeup_gain st,
       fft_order := state_fft_order st,
       windowing_overlap_times := state_windowing_overlap_times st\<rparr>"

definition setStateInformation :: "ParameterState option \<Rightarrow> Processor \<Rightarrow> Processor" where
  "setStateInformation xml p =
     (let p1 = update_and_swap_process_data
                 (case xml of Some st \<Rightarrow> replaceState st p | None \<Rightarrow> p);
          new_window_size = 2 ^ fft_order p1
      in setLatencySamples new_window_size p1)"

text \<open>
  The constructor: the parameters' default values, a stereo layout, and the latency of
  the default window size.  The sample rate is the host's to set; \<open>makeup_gain\<close> has no
  initialiser and is a parameter here.
\<close>

definition SpectralCompressorProcessor :: "real \<Rightarrow> real \<Rightarrow> Processor" where
  "SpectralCompressorProcessor host_sample_rate indeterminate_gain =
     setLatencySamples (2 ^ 12)
       \<lparr>sidechain_active = False, compressor_ratio = 50, compressor_attack_ms = 50,
        compressor_release_ms = 5000, auto_makeup_gain = True, fft_order = 12,
        windowing_overlap_times = 4, getSampleRate = host_sample_rate,
        getMainBusNumInputChannels = 2, getMainBusNumOutputChannels = 2,
        getLatencySamples = 0, max_samples_per_block = 0, makeup_gain = indeterminate_gain,
        compressor_settings_changed = True,
        process_data = \<lparr>active = empty_process_data, inactive = empty_process_data,
                        needs_swap = False\<rparr>,
        async_update_triggered = False\<rparr>"

subsection \<open>Concrete configurations\<close>

text \<open>
  The closed examples below run on these: the processor as constructed (window order 12,
  overlap 4, stereo) at 48 kHz after \<open>prepareToPlay\<close>, and its active working set.
\<close>

definition example_processor :: Processor where
  "example_processor = prepareToPlay 512 (SpectralCompressorProcessor 48000 0)"

definition example_process_data :: ProcessData where
  "example_process_data = active (process_data example_processor)"

subsection \<open>Quantities the theorems speak of\<close>

text \<open>
  The factor the compression loop applies to bin \<open>bin_idx\<close> of the scratch buffer: the
  bin's compressor is the one at index \<open>bin_idx - 1\<close>.
\<close>

definition bin_multiplier :: "Juce \<Rightarrow> nat \<Rightarrow> ProcessData \<Rightarrow> nat \<Rightarrow> real" where
  "bin_multiplier juce channel pd bin_idx =
     (let magnitude = bin_magnitude (fft_scratch_buffer pd) bin_idx;
          compressed_magnitude =
            fst (processSample juce channel magnitude (spectral_compressors pd ! (bin_idx - 1)))
      in if magnitude \<noteq> 0 then compressed_magnitude / magnitude else 1)"

text \<open>
  An instance of the JUCE parameters for the closed examples: a compressor that halves
  every magnitude, transforms that leave the scratch buffer as it is and a rectangular
  window table.  The second working set has a spectrum of threes in its scratch buffer.
\<close>

definition halving :: Juce where
  "halving =
     \<lparr>ballistics = (\<lambda>c channel x. (x / 2, envelope c)),
      performRealOnlyForwardTransform = (\<lambda>order only_non_negative samples. samples),
      performRealOnlyInverseTransform = (\<lambda>order samples. samples),
      windowing_table = (\<lambda>num. replicate num 1)\<rparr>"

definition loud_process_data :: ProcessData where
  "loud_process_data = example_process_data\<lparr>fft_scratch_buffer := replicate 8192 3\<rparr>"

text \<open>
  The magnitude the sidechain loop reads for a channel and a compressor: the modulus of
  the compressor's bin in the scratch buffer right after that channel's transform.
\<close>

definition sidechain_magnitude :: "Juce \<Rightarrow> ProcessData \<Rightarrow> nat \<Rightarrow> nat \<Rightarrow> real" where
  "sidechain_magnitude juce pd channel compressor_idx =
     bin_magnitude
       (fft_scratch_buffer (fold (accumulate_sidechain_channel juce) [0..<Suc channel] pd))
       (compressor_idx + 1)"

text \<open>A working set whose sidechain ring buffers hold a constant signal.\<close>

definition sidechain_process_data :: ProcessData where
  "sidechain_process_data =
     example_process_data
       \<lparr>sidechain_ring_buffers :=
          replicate 2 \<lparr>backing_store = replicate 4096 3, current_pos = 0\<rparr>\<rparr>"

text \<open>What a log accounts for: the samples synced and the windows invoked.\<close>

fun synced_samples :: "stft_event \<Rightarrow> nat" where
  "synced_samples (Synced sample_offset num) = num"
| "synced_samples Windowed = 0"

definition total_synced :: "stft_event list \<Rightarrow> nat" where
  "total_synced events = sum_list (map synced_samples events)"

definition windows_invoked :: "stft_event list \<Rightarrow> nat" where
  "windows_invoked events = length (filter (\<lambda>e. e = Windowed) events)"



text \<open>
  What one pass of the channel loop hands the host for a channel, and the state after
  the first \<open>k\<close> channels of a pass, written out.
\<close>

definition host_output :: "Processor \<Rightarrow> ProcessData \<Rightarrow> nat \<Rightarrow> nat \<Rightarrow> sample list" where
  "host_output p pd num channel =
     (if num_windows_processed pd \<ge> windowing_overlap_times p
      then fst (copy_n_to num True (output_ring_buffers pd ! channel))
      else replicate num 0)"

definition synced ::
  "Processor \<Rightarrow> nat \<Rightarrow> nat \<Rightarrow> nat \<Rightarrow> AudioBuffer \<times> ProcessData \<Rightarrow> AudioBuffer \<times> ProcessData" where
  "synced p sample_buffer_offset num k = (\<lambda>(buffer, pd).
     (buffer\<lparr>channel_data :=
        map (\<lambda>channel.
               if channel < k
               then take sample_buffer_offset (channel_data buffer ! channel)
                    @ host_output p pd num channel
                    @ drop (sample_buffer_offset + num) (channel_data buffer ! channel)
               else channel_data buffer ! channel)
          [0..<length (channel_data buffer)]\<rparr>,
      pd\<lparr>input_ring_buffers :=
           map (\<lambda>channel.
                  if channel < k
                  then read_n_from (read_pointer buffer channel sample_buffer_offset num)
                         (input_ring_buffers pd ! channel)
                  else input_ring_buffers pd ! channel)
             [0..<length (input_ring_buffers pd)],
         output_ring_buffers :=
           map (\<lambda>channel.
                  if channel < k \<and> num_windows_processed pd \<ge> windowing_overlap_times p
                  then snd (copy_n_to num True (output_ring_buffers pd ! channel))
                  else output_ring_buffers pd ! channel)
             [0..<length (output_ring_buffers pd)],
         sidechain_ring_buffers :=
           map (\<lambda>channel.
                  if channel < k \<and> sidechain_active p
                  then read_n_from
                         (read_pointer buffer (getMainBusNumInputChannels p + channel)
                            sample_buffer_offset num)
                         (sidechain_ring_buffers pd ! channel)
                  else sidechain_ring_buffers pd ! channel)
             [0..<length (sidechain_ring_buffers pd)]\<rparr>))"

text \<open>
  The shapes the driver relies on: one ring buffer of each kind per main input channel,
  and a host buffer that carries the main bus followed by a sidechain bus of the same
  width, every channel \<open>getNumSamples\<close> long.
\<close>

definition ring_vectors_sized :: "Processor \<Rightarrow> ProcessData \<Rightarrow> bool" where
  "ring_vectors_sized p pd =
     (length (input_ring_buffers pd) = getMainBusNumInputChannels p
      \<and> length (output_ring_buffers pd) = getMainBusNumInputChannels p
      \<and> length (sidechain_ring_buffers pd) = getMainBusNumInputChannels p)"

definition buffer_fits :: "Processor \<Rightarrow> AudioBuffer \<Rightarrow> bool" where
  "buffer_fits p buffer =
     (length (channel_data buffer) = 2 * getMainBusNumInputChannels p
      \<and> list_all (\<lambda>samples. length samples = getNumSamples buffer) (channel_data buffer))"

text \<open>One host block after another, channel by channel.\<close>

definition append_buffers :: "AudioBuffer \<Rightarrow> AudioBuffer \<Rightarrow> AudioBuffer" where
  "append_buffers b1 b2 =
     \<lparr>channel_data = map2 (@) (channel_data b1) (channel_data b2),
      getNumSamples = getNumSamples b1 + getNumSamples b2\<rparr>"

text \<open>
  What \<open>do_stft\<close> needs of the function object it is handed: it leaves the input ring
  buffers, the window size and the window counter alone and keeps one output and one
  sidechain ring buffer per channel.  Both function objects of the source do.
\<close>

definition stage_respects :: "(ProcessData \<Rightarrow> nat \<Rightarrow> ProcessData) \<Rightarrow> bool" where
  "stage_respects process_fn =
     (\<forall>pd n. input_ring_buffers (process_fn pd n) = input_ring_buffers pd
            \<and> fft_window_size (process_fn pd n) = fft_window_size pd
            \<and> num_windows_processed (process_fn pd n) = num_windows_processed pd
            \<and> length (output_ring_buffers (process_fn pd n)) = length (output_ring_buffers pd)
            \<and> length (sidechain_ring_buffers (process_fn pd n))
              = length (sidechain_ring_buffers pd))"

text \<open>
  What \<open>do_stft\<close> needs of the working set and the layout: sized ring-buffer vectors, at
  least one main channel, no output channel beyond the main inputs, and a positive hop
  that divides the capacity of the first input ring buffer (the spec's invariant that the
  hop divides the window size).
\<close>

definition driver_ready :: "Processor \<Rightarrow> ProcessData \<Rightarrow> bool" where
  "driver_ready p pd =
     (ring_vectors_sized p pd
      \<and> 0 < getMainBusNumInputChannels p
      \<and> getMainBusNumOutputChannels p \<le> getMainBusNumInputChannels p
      \<and> 0 < windowing_interval p pd
      \<and> windowing_interval p pd dvd length (backing_store (input_ring_buffers pd ! 0)))"

text \<open>What the window stages leave alone in a working set.\<close>

definition keeps_rings :: "ProcessData \<Rightarrow> ProcessData \<Rightarrow> bool" where
  "keeps_rings pd pd' =
     (input_ring_buffers pd' = input_ring_buffers pd
      \<and> sidechain_ring_buffers pd' = sidechain_ring_buffers pd
      \<and> length (output_ring_buffers pd') = length (output_ring_buffers pd)
      \<and> fft_window_size pd' = fft_window_size pd
      \<and> num_windows_processed pd' = num_windows_processed pd
      \<and> windowing_function pd' = windowing_function pd
      \<and> fft pd' = fft pd)"

text \<open>
  A processor is ready when the working set its next block will run on (the one \<open>get\<close>
  makes current) is ready for the driver.
\<close>

definition processor_ready :: "Processor \<Rightarrow> bool" where
  "processor_ready p = driver_ready p (active (get (process_data p)))"


definition join_buffers :: "Processor \<Rightarrow> AudioBuffer list \<Rightarrow> AudioBuffer" where
  "join_buffers p buffers =
     foldr append_buffers buffers
       \<lparr>channel_data = replicate (2 * getMainBusNumInputChannels p) [], getNumSamples = 0\<rparr>"

section \<open>Facts about the concrete configurations\<close>


lemma example_process_data_eq:
  "example_process_data
   = rebuild_process_data (SpectralCompressorProcessor 48000 0) empty_process_data"
  by (simp add: example_process_data_def example_processor_def prepareToPlay_def
      SpectralCompressorProcessor_def update_and_swap_process_data_def setLatencySamples_def
      Let_def modify_and_swap_def get_def rebuild_process_data_def resize_ring_buffers_def)

lemma example_process_data_fields:
  "fft_window_size example_process_data = 4096"
  "num_windows_processed example_process_data = 0"
  "spectral_compressors example_process_data = replicate 2048 default_compressor"
  "spectral_compressor_sidechain_thresholds example_process_data = replicate 2048 0"
  "fft_scratch_buffer example_process_data = replicate 8192 0"
  by (simp_all add: example_process_data_eq rebuild_process_data_def
      SpectralCompressorProcessor_def setLatencySamples_def Let_def empty_process_data_def
      resize_vector_def)

section \<open>The rate the compressors are prepared with\<close>


lemma length_update_compressors:
  "length (spectral_compressors (snd (update_compressors p pd))) = length (spectral_compressors pd)"
  by (simp add: update_compressors_def Let_def)







section \<open>The compression loop\<close>

lemma length_resize_vector: "length (resize_vector new_size fresh xs) = new_size"
  by (simp add: resize_vector_def)

lemma length_rebuild:
  "length (spectral_compressors (rebuild_process_data p pd0))
     = fft_window_size (rebuild_process_data p pd0) div 2"
  "length (fft_scratch_buffer (rebuild_process_data p pd0))
     = 2 * fft_window_size (rebuild_process_data p pd0)"
  "length (spectral_compressor_sidechain_thresholds (rebuild_process_data p pd0))
     = length (spectral_compressors (rebuild_process_data p pd0))"
  by (simp_all add: rebuild_process_data_def length_resize_vector Let_def)

lemma compress_bin_closed:
  "compress_bin juce channel compressor_idx pd =
     pd\<lparr>spectral_compressors :=
          (spectral_compressors pd)
            [compressor_idx :=
               snd (processSample juce channel
                      (bin_magnitude (fft_scratch_buffer pd) (compressor_idx + 1))
                      (spectral_compressors pd ! compressor_idx))],
        fft_scratch_buffer :=
          (fft_scratch_buffer pd)
            [2 * (compressor_idx + 1) :=
               fft_scratch_buffer pd ! (2 * (compressor_idx + 1))
               * bin_multiplier juce channel pd (compressor_idx + 1),
             2 * (compressor_idx + 1) + 1 :=
               fft_scratch_buffer pd ! (2 * (compressor_idx + 1) + 1)
               * bin_multiplier juce channel pd (compressor_idx + 1)]\<rparr>"
  by (simp add: compress_bin_def bin_multiplier_def compression_multiplier_def Let_def
      split: prod.splits)

lemma compress_bins_fold:
  assumes "k \<le> length (spectral_compressors pd)"
    and "2 * (length (spectral_compressors pd) + 1) \<le> length (fft_scratch_buffer pd)"
  shows "fold (compress_bin juce channel) [0..<k] pd =
     pd\<lparr>spectral_compressors :=
          map (\<lambda>j. if j < k
                    then snd (processSample juce channel
                                (bin_magnitude (fft_scratch_buffer pd) (j + 1))
                                (spectral_compressors pd ! j))
                    else spectral_compressors pd ! j)
            [0..<length (spectral_compressors pd)],
        fft_scratch_buffer :=
          map (\<lambda>i. if 2 \<le> i \<and> i < 2 * (k + 1)
                    then fft_scratch_buffer pd ! i * bin_multiplier juce channel pd (i div 2)
                    else fft_scratch_buffer pd ! i)
            [0..<length (fft_scratch_buffer pd)]\<rparr>"
  using assms
proof (induction k)
  case 0
  have "map (\<lambda>i. if 2 \<le> i \<and> i < 2 * (0 + 1)
                    then fft_scratch_buffer pd ! i * bin_multiplier juce channel pd (i div 2)
                    else fft_scratch_buffer pd ! i)
            [0..<length (fft_scratch_buffer pd)] = fft_scratch_buffer pd"
    by (auto intro!: nth_equalityI)
  then show ?case by (simp add: map_nth)
next
  case (Suc k)
  let ?pd = "fold (compress_bin juce channel) [0..<k] pd"
  have ih: "?pd = pd\<lparr>spectral_compressors :=
          map (\<lambda>j. if j < k
                    then snd (processSample juce channel
                                (bin_magnitude (fft_scratch_buffer pd) (j + 1))
                                (spectral_compressors pd ! j))
                    else spectral_compressors pd ! j)
            [0..<length (spectral_compressors pd)],
        fft_scratch_buffer :=
          map (\<lambda>i. if 2 \<le> i \<and> i < 2 * (k + 1)
                    then fft_scratch_buffer pd ! i * bin_multiplier juce channel pd (i div 2)
                    else fft_scratch_buffer pd ! i)
            [0..<length (fft_scratch_buffer pd)]\<rparr>"
    using Suc by simp
  have k: "k < length (spectral_compressors pd)" using Suc.prems by simp
  have len: "2 * k + 3 < length (fft_scratch_buffer pd)" using Suc.prems by simp
  have sb: "fft_scratch_buffer ?pd ! Suc (Suc (2 * k)) = fft_scratch_buffer pd ! Suc (Suc (2 * k))"
    "fft_scratch_buffer ?pd ! Suc (Suc (Suc (2 * k))) = fft_scratch_buffer pd ! Suc (Suc (Suc (2 * k)))"
    "spectral_compressors ?pd ! k = spectral_compressors pd ! k"
    using len k by (simp_all add: ih)
  have mag: "bin_magnitude (fft_scratch_buffer ?pd) (Suc k) = bin_magnitude (fft_scratch_buffer pd) (Suc k)"
    by (simp add: bin_magnitude_def sb)
  have mult: "bin_multiplier juce channel ?pd (Suc k) = bin_multiplier juce channel pd (Suc k)"
    by (simp add: bin_multiplier_def mag sb)
  have "fold (compress_bin juce channel) [0..<Suc k] pd = compress_bin juce channel k ?pd"
    by simp
  also have "\<dots> = pd\<lparr>spectral_compressors :=
          map (\<lambda>j. if j < Suc k
                    then snd (processSample juce channel
                                (bin_magnitude (fft_scratch_buffer pd) (j + 1))
                                (spectral_compressors pd ! j))
                    else spectral_compressors pd ! j)
            [0..<length (spectral_compressors pd)],
        fft_scratch_buffer :=
          map (\<lambda>i. if 2 \<le> i \<and> i < 2 * (Suc k + 1)
                    then fft_scratch_buffer pd ! i * bin_multiplier juce channel pd (i div 2)
                    else fft_scratch_buffer pd ! i)
            [0..<length (fft_scratch_buffer pd)]\<rparr>"
    apply (subst compress_bin_closed)
    apply (simp add: mag mult sb)
    apply (simp add: ih)
    apply (rule arg_cong2 [where f = "\<lambda>a b. pd\<lparr>spectral_compressors := a, fft_scratch_buffer := b\<rparr>"])
    subgoal using k by (auto intro!: nth_equalityI simp: nth_list_update less_Suc_eq)
    subgoal using len
      apply (intro nth_equalityI)
       apply simp
      apply (auto simp: nth_list_update)
      done
    done
  finally show ?case .
qed

lemma bin_multiplier_halving:
  "bin_idx < 4096 \<Longrightarrow> bin_multiplier halving channel loud_process_data bin_idx = 1 / 2"
  by (simp add: bin_multiplier_def loud_process_data_def bin_magnitude_def processSample_def
      halving_def Let_def)

text \<open>
  C7.  With one compressor for each of the \<open>fft_window_size div 2\<close> bins after bin 0 (what
  every rebuild sets up) and a scratch buffer of \<open>2 * fft_window_size\<close> values, the
  compression loop multiplies the real and the imaginary part of every bin from 1 to
  \<open>fft_window_size div 2\<close> by that bin's \<open>bin_multiplier\<close>, which is
  \<open>compressed_magnitude / magnitude\<close> for a nonzero magnitude and 1 otherwise, and leaves
  bin 0 and the bins above \<open>fft_window_size div 2\<close> as they were.
\<close>

theorem compress_bins_scales_bins:
  assumes "length (spectral_compressors pd) = fft_window_size pd div 2"
    and "length (fft_scratch_buffer pd) = 2 * fft_window_size pd"
    and "bin_idx < fft_window_size pd"
  shows "fft_scratch_buffer (compress_bins juce channel pd) ! (2 * bin_idx)
           = fft_scratch_buffer pd ! (2 * bin_idx)
             * (if 1 \<le> bin_idx \<and> bin_idx \<le> fft_window_size pd div 2
                then bin_multiplier juce channel pd bin_idx else 1)
       \<and> fft_scratch_buffer (compress_bins juce channel pd) ! (2 * bin_idx + 1)
           = fft_scratch_buffer pd ! (2 * bin_idx + 1)
             * (if 1 \<le> bin_idx \<and> bin_idx \<le> fft_window_size pd div 2
                then bin_multiplier juce channel pd bin_idx else 1)
       \<and> length (spectral_compressors (compress_bins juce channel pd)) = fft_window_size pd div 2
       \<and> length (spectral_compressors (rebuild_process_data p pd))
           = fft_window_size (rebuild_process_data p pd) div 2"
proof -
  have n: "2 * (length (spectral_compressors pd) + 1) \<le> length (fft_scratch_buffer pd)"
    using assms by simp arith
  have i: "2 * bin_idx + 1 < length (fft_scratch_buffer pd)"
    using assms by simp
  have d: "(2 * bin_idx + 1) div 2 = bin_idx" by simp
  have r: "(2 \<le> 2 * bin_idx + 1 \<and> 2 * bin_idx + 1 < 2 * (fft_window_size pd div 2 + 1))
           = (1 \<le> bin_idx \<and> bin_idx \<le> fft_window_size pd div 2)"
          "(2 \<le> 2 * bin_idx \<and> 2 * bin_idx < 2 * (fft_window_size pd div 2 + 1))
           = (1 \<le> bin_idx \<and> bin_idx \<le> fft_window_size pd div 2)"
    by auto
  show ?thesis
    unfolding compress_bins_def
    apply (subst compress_bins_fold [OF order_refl n])+
    using i r d assms(1) by (simp add: length_rebuild del: mult_Suc_right)
qed

theorem compress_bins_scales_bins_witness:
  "fft_scratch_buffer (compress_bins halving 0 loud_process_data) ! 2 = 3 / 2
   \<and> fft_scratch_buffer (compress_bins halving 0 loud_process_data) ! 3 = 3 / 2
   \<and> fft_scratch_buffer (compress_bins halving 0 loud_process_data) ! 4096 = 3 / 2
   \<and> fft_scratch_buffer (compress_bins halving 0 loud_process_data) ! 0 = 3
   \<and> fft_scratch_buffer (compress_bins halving 0 loud_process_data) ! 4098 = 3
   \<and> length (spectral_compressors (compress_bins halving 0 loud_process_data)) = 2048"
  using compress_bins_scales_bins [of loud_process_data 1 halving 0 example_processor]
    compress_bins_scales_bins [of loud_process_data 2048 halving 0 example_processor]
    compress_bins_scales_bins [of loud_process_data 0 halving 0 example_processor]
    compress_bins_scales_bins [of loud_process_data 2049 halving 0 example_processor]
  by (simp add: loud_process_data_def example_process_data_fields
      bin_multiplier_halving [unfolded loud_process_data_def])

section \<open>Thresholds from the sidechain\<close>

lemma accumulate_magnitude_fold:
  assumes "k \<le> length thresholds"
  shows "fold (accumulate_magnitude scratch) [0..<k] thresholds
         = map (\<lambda>j. if j < k then thresholds ! j + bin_magnitude scratch (j + 1)
                     else thresholds ! j) [0..<length thresholds]"
  using assms
proof (induction k)
  case 0
  then show ?case by (simp add: map_nth)
next
  case (Suc k)
  then show ?case
    by (auto intro!: nth_equalityI simp: accumulate_magnitude_def Let_def nth_list_update less_Suc_eq)
qed

lemma accumulate_sidechain_channels:
  assumes "length (spectral_compressor_sidechain_thresholds pd) = length (spectral_compressors pd)"
  shows "spectral_compressors (fold (accumulate_sidechain_channel juce) [0..<c] pd)
           = spectral_compressors pd
       \<and> spectral_compressor_sidechain_thresholds
           (fold (accumulate_sidechain_channel juce) [0..<c] pd)
           = map (\<lambda>j. spectral_compressor_sidechain_thresholds pd ! j
                        + (\<Sum>channel<c. sidechain_magnitude juce pd channel j))
               [0..<length (spectral_compressors pd)]"
proof (induction c)
  case 0
  show ?case using assms by (simp add: map_nth [where xs = "spectral_compressor_sidechain_thresholds pd", simplified assms])
next
  case (Suc c)
  let ?pd = "fold (accumulate_sidechain_channel juce) [0..<c] pd"
  have step: "fold (accumulate_sidechain_channel juce) [0..<Suc c] pd
              = accumulate_sidechain_channel juce c ?pd" by simp
  have cs: "spectral_compressors ?pd = spectral_compressors pd" using Suc by simp
  have ts: "spectral_compressor_sidechain_thresholds ?pd
           = map (\<lambda>j. spectral_compressor_sidechain_thresholds pd ! j
                        + (\<Sum>channel<c. sidechain_magnitude juce pd channel j))
               [0..<length (spectral_compressors pd)]" using Suc by simp
  have scr: "fft_scratch_buffer (accumulate_sidechain_channel juce c ?pd)
             = performRealOnlyForwardTransform juce (fft ?pd) True
                 (store_front (copy_last_n_to (fft_window_size ?pd) (sidechain_ring_buffers ?pd ! c))
                    (fft_scratch_buffer ?pd))"
    by (simp add: accumulate_sidechain_channel_def Let_def)
  have mag: "\<And>j. sidechain_magnitude juce pd c j
        = bin_magnitude (performRealOnlyForwardTransform juce (fft ?pd) True
                 (store_front (copy_last_n_to (fft_window_size ?pd) (sidechain_ring_buffers ?pd ! c))
                    (fft_scratch_buffer ?pd))) (j + 1)"
    unfolding sidechain_magnitude_def step scr ..
  show ?case
    unfolding step
    apply (simp add: accumulate_sidechain_channel_def Let_def cs ts accumulate_magnitude_fold)
    apply (auto intro!: nth_equalityI simp: mag)
    done
qed

lemma set_sidechain_threshold_fold:
  assumes "k \<le> length (spectral_compressors pd)"
    and "length (spectral_compressor_sidechain_thresholds pd) = length (spectral_compressors pd)"
  shows "fold (set_sidechain_threshold input_channels) [0..<k] pd
         = pd\<lparr>spectral_compressors :=
                 map (\<lambda>j. if j < k
                           then setThreshold
                                  (spectral_compressor_sidechain_thresholds pd ! j / real input_channels)
                                  (spectral_compressors pd ! j)
                           else spectral_compressors pd ! j)
                   [0..<length (spectral_compressors pd)],
               spectral_compressor_sidechain_thresholds :=
                 map (\<lambda>j. if j < k then 0 else spectral_compressor_sidechain_thresholds pd ! j)
                   [0..<length (spectral_compressors pd)]\<rparr>"
  using assms
proof (induction k)
  case 0
  then show ?case
    by (simp add: map_nth map_nth [where xs = "spectral_compressor_sidechain_thresholds pd", simplified assms(2)])
next
  case (Suc k)
  then have ih: "fold (set_sidechain_threshold input_channels) [0..<k] pd
         = pd\<lparr>spectral_compressors :=
                 map (\<lambda>j. if j < k
                           then setThreshold
                                  (spectral_compressor_sidechain_thresholds pd ! j / real input_channels)
                                  (spectral_compressors pd ! j)
                           else spectral_compressors pd ! j)
                   [0..<length (spectral_compressors pd)],
               spectral_compressor_sidechain_thresholds :=
                 map (\<lambda>j. if j < k then 0 else spectral_compressor_sidechain_thresholds pd ! j)
                   [0..<length (spectral_compressors pd)]\<rparr>" by simp
  have k: "k < length (spectral_compressors pd)" using Suc.prems by simp
  have "fold (set_sidechain_threshold input_channels) [0..<Suc k] pd
        = set_sidechain_threshold input_channels k
            (fold (set_sidechain_threshold input_channels) [0..<k] pd)" by simp
  then show ?case
    apply (simp only: ih)
    apply (simp add: set_sidechain_threshold_def)
    apply (rule arg_cong2 [where f = "\<lambda>a b. pd\<lparr>spectral_compressors := a, spectral_compressor_sidechain_thresholds := b\<rparr>"])
    using k by (auto intro!: nth_equalityI simp: nth_list_update less_Suc_eq)
qed

lemma accumulate_sidechain_channel_frame:
  "sidechain_ring_buffers (accumulate_sidechain_channel juce c pd) = sidechain_ring_buffers pd"
  "fft_window_size (accumulate_sidechain_channel juce c pd) = fft_window_size pd"
  "fft (accumulate_sidechain_channel juce c pd) = fft pd"
  "fft_scratch_buffer (accumulate_sidechain_channel juce c pd)
     = performRealOnlyForwardTransform juce (fft pd) True
         (store_front (copy_last_n_to (fft_window_size pd) (sidechain_ring_buffers pd ! c))
            (fft_scratch_buffer pd))"
  by (simp_all add: accumulate_sidechain_channel_def Let_def)

lemma sidechain_magnitude_example0:
  assumes "compressor_idx < 2047"
  shows "sidechain_magnitude halving sidechain_process_data 0 compressor_idx = sqrt 18"
proof -
  have i: "Suc (Suc (2 * compressor_idx)) < 4096" "Suc (Suc (Suc (2 * compressor_idx))) < 4096"
    using assms by simp_all
  show ?thesis
    using i
    by (simp add: sidechain_magnitude_def accumulate_sidechain_channel_frame
        sidechain_process_data_def example_process_data_fields halving_def
        store_front_def copy_last_n_to_def bin_magnitude_def nth_append)
qed

lemma fold_two: "fold f [0..<Suc (Suc 0)] x = f (Suc 0) (f 0 x)"
  by simp

lemma sidechain_magnitude_example1:
  assumes "compressor_idx < 2047"
  shows "sidechain_magnitude halving sidechain_process_data (Suc 0) compressor_idx = sqrt 18"
proof -
  have i: "Suc (Suc (2 * compressor_idx)) < 4096" "Suc (Suc (Suc (2 * compressor_idx))) < 4096"
    using assms by simp_all
  show ?thesis
    unfolding sidechain_magnitude_def fold_two
    using i
    by (simp add: accumulate_sidechain_channel_frame
        sidechain_process_data_def example_process_data_fields halving_def
        store_front_def copy_last_n_to_def bin_magnitude_def nth_append)
qed

lemma sidechain_magnitude_example:
  assumes "channel < 2" "compressor_idx < 2047"
  shows "sidechain_magnitude halving sidechain_process_data channel compressor_idx = sqrt 18"
proof -
  have "channel = 0 \<or> channel = Suc 0" using assms by auto
  then show ?thesis
    using sidechain_magnitude_example0 [OF assms(2)] sidechain_magnitude_example1 [OF assms(2)]
    by blast
qed

text \<open>
  C6.  Between windows the per-bin accumulator is all zeros.  From such a working set, and
  for at least one channel, the sidechain stage of a window hands every compressor the sum
  over the input channels of its bin's sidechain magnitude divided by the number of
  channels, and leaves the accumulator all zeros again, so the next window starts from
  nothing.  When every channel has the same magnitude in the bin, the threshold is that
  magnitude, whatever the number of channels.
\<close>

theorem sidechain_stage_mean:
  assumes "spectral_compressor_sidechain_thresholds pd
           = replicate (length (spectral_compressors pd)) 0"
    and "compressor_idx < length (spectral_compressors pd)"
    and "0 < input_channels"
  shows "thresholddB (spectral_compressors (sidechain_stage juce input_channels pd) ! compressor_idx)
           = (\<Sum>channel<input_channels. sidechain_magnitude juce pd channel compressor_idx)
             / real input_channels
       \<and> spectral_compressor_sidechain_thresholds (sidechain_stage juce input_channels pd)
           = replicate (length (spectral_compressors pd)) 0
       \<and> length (spectral_compressors (sidechain_stage juce input_channels pd))
           = length (spectral_compressors pd)
       \<and> ((\<forall>channel<input_channels.
                sidechain_magnitude juce pd channel compressor_idx = magnitude)
          \<longrightarrow> thresholddB
                (spectral_compressors (sidechain_stage juce input_channels pd) ! compressor_idx)
              = magnitude)"
proof -
  let ?pd1 = "fold (accumulate_sidechain_channel juce) [0..<input_channels] pd"
  have len: "length (spectral_compressor_sidechain_thresholds pd) = length (spectral_compressors pd)"
    using assms(1) by (metis length_replicate)
  note acc = accumulate_sidechain_channels [OF len, of juce input_channels]
  have len1: "length (spectral_compressor_sidechain_thresholds ?pd1) = length (spectral_compressors ?pd1)"
    using acc by simp
  have t1: "spectral_compressor_sidechain_thresholds ?pd1 ! compressor_idx
            = (\<Sum>channel<input_channels. sidechain_magnitude juce pd channel compressor_idx)"
    using acc assms by simp
  have stage: "sidechain_stage juce input_channels pd
     = ?pd1\<lparr>spectral_compressors :=
                 map (\<lambda>j. if j < length (spectral_compressors ?pd1)
                           then setThreshold
                                  (spectral_compressor_sidechain_thresholds ?pd1 ! j / real input_channels)
                                  (spectral_compressors ?pd1 ! j)
                           else spectral_compressors ?pd1 ! j)
                   [0..<length (spectral_compressors ?pd1)],
               spectral_compressor_sidechain_thresholds :=
                 map (\<lambda>j. if j < length (spectral_compressors ?pd1) then 0
                           else spectral_compressor_sidechain_thresholds ?pd1 ! j)
                   [0..<length (spectral_compressors ?pd1)]\<rparr>"
    unfolding sidechain_stage_def Let_def
    by (rule set_sidechain_threshold_fold [OF order_refl len1])
  have cs1: "spectral_compressors ?pd1 = spectral_compressors pd" using acc by simp
  have a: "thresholddB (spectral_compressors (sidechain_stage juce input_channels pd) ! compressor_idx)
           = (\<Sum>channel<input_channels. sidechain_magnitude juce pd channel compressor_idx)
             / real input_channels"
    using assms(2) by (simp add: stage setThreshold_def t1 cs1)
  have b: "spectral_compressor_sidechain_thresholds (sidechain_stage juce input_channels pd)
           = replicate (length (spectral_compressors pd)) 0"
    using acc by (auto intro!: nth_equalityI simp: stage)
  have c: "length (spectral_compressors (sidechain_stage juce input_channels pd))
           = length (spectral_compressors pd)"
    using acc by (simp add: stage)
  have d: "thresholddB
                (spectral_compressors (sidechain_stage juce input_channels pd) ! compressor_idx)
              = magnitude"
    if "\<forall>channel<input_channels. sidechain_magnitude juce pd channel compressor_idx = magnitude"
    using that assms(3) by (simp add: a)
  show ?thesis using a b c d by blast
qed

theorem sidechain_stage_mean_witness:
  "thresholddB (spectral_compressors (sidechain_stage halving 2 sidechain_process_data) ! 0)
     = (\<Sum>channel<2. sidechain_magnitude halving sidechain_process_data channel 0) / 2
   \<and> spectral_compressor_sidechain_thresholds (sidechain_stage halving 2 sidechain_process_data)
     = replicate 2048 0
   \<and> length (spectral_compressors (sidechain_stage halving 2 sidechain_process_data)) = 2048
   \<and> thresholddB (spectral_compressors (sidechain_stage halving 2 sidechain_process_data) ! 0)
     = sqrt 18"
proof -
  have h1: "spectral_compressor_sidechain_thresholds sidechain_process_data
            = replicate (length (spectral_compressors sidechain_process_data)) 0"
    by (simp add: sidechain_process_data_def example_process_data_fields)
  have h2: "0 < length (spectral_compressors sidechain_process_data)"
    by (simp add: sidechain_process_data_def example_process_data_fields)
  have h3: "\<forall>channel<2. sidechain_magnitude halving sidechain_process_data channel 0 = sqrt 18"
    by (simp add: sidechain_magnitude_example)
  have n: "length (spectral_compressors sidechain_process_data) = 2048"
    by (simp add: sidechain_process_data_def example_process_data_fields)
  show ?thesis
    using sidechain_stage_mean [OF h1 h2, of 2 halving "sqrt 18"] h3 n by simp
qed

section \<open>The schedule of do_stft\<close>

lemma getNumSamples_write_pointer [simp]:
  "getNumSamples (write_pointer channel off dst buffer) = getNumSamples buffer"
  by (simp add: write_pointer_def)

lemma getNumSamples_clear_samples [simp]:
  "getNumSamples (clear_samples channel off num buffer) = getNumSamples buffer"
  by (simp add: clear_samples_def)

lemma getNumSamples_sync_channel [simp]:
  "getNumSamples (fst (sync_channel p off num channel bp)) = getNumSamples (fst bp)"
  by (cases bp) (simp add: sync_channel_def Let_def split: prod.splits)

lemma getNumSamples_sync_channels [simp]:
  "getNumSamples (fst (sync_channels p off num bp)) = getNumSamples (fst bp)"
proof -
  have "getNumSamples (fst (fold (sync_channel p off num) cs bp)) = getNumSamples (fst bp)" for cs
    by (induction cs arbitrary: bp) simp_all
  then show ?thesis by (simp add: sync_channels_def)
qed

lemma getNumSamples_clear_fold [simp]:
  "getNumSamples (fold (\<lambda>channel. clear_samples channel off num) cs buffer) = getNumSamples buffer"
  by (induction cs arbitrary: buffer) simp_all




lemma total_synced_append [simp]:
  "total_synced (xs @ ys) = total_synced xs + total_synced ys"
  by (simp add: total_synced_def)

lemma windows_invoked_append [simp]:
  "windows_invoked (xs @ ys) = windows_invoked xs + windows_invoked ys"
  by (simp add: windows_invoked_def)

lemma windows_invoked_simps [simp]:
  "windows_invoked [] = 0"
  "windows_invoked (Windowed # events) = Suc (windows_invoked events)"
  "windows_invoked (Synced sample_offset num # events) = windows_invoked events"
  by (simp_all add: windows_invoked_def)

lemma total_synced_simps [simp]:
  "total_synced [] = 0"
  "total_synced (Windowed # events) = total_synced events"
  "total_synced (Synced sample_offset num # events) = num + total_synced events"
  by (simp_all add: total_synced_def)






section \<open>The channel loop in closed form\<close>

lemma length_copy_n_to [simp]: "length (fst (copy_n_to num clear rb)) = num"
  by (induction num arbitrary: rb) (simp_all add: Let_def case_prod_beta)

lemma length_host_output [simp]: "length (host_output p pd num channel) = num"
  by (simp add: host_output_def)

lemma synced_0: "synced p off num 0 bp = bp"
  by (cases bp) (simp add: synced_def map_nth)

lemma map_upd_step:
  "k < n \<Longrightarrow>
   (map (\<lambda>channel. if channel < k then f channel else g channel) [0..<n])[k := f k]
   = map (\<lambda>channel. if channel < Suc k then f channel else g channel) [0..<n]"
  by (auto intro!: nth_equalityI simp: nth_list_update less_Suc_eq)

lemma sync_channel_eq:
  "sync_channel p off num k (b, d)
   = (b\<lparr>channel_data :=
          (channel_data b)
            [k := take off (channel_data b ! k) @ host_output p d num k
                  @ drop (off + num) (channel_data b ! k)]\<rparr>,
      d\<lparr>input_ring_buffers :=
          (input_ring_buffers d)
            [k := read_n_from (read_pointer b k off num) (input_ring_buffers d ! k)],
        output_ring_buffers :=
          (if num_windows_processed d \<ge> windowing_overlap_times p
           then (output_ring_buffers d)[k := snd (copy_n_to num True (output_ring_buffers d ! k))]
           else output_ring_buffers d),
        sidechain_ring_buffers :=
          (if sidechain_active p
           then (sidechain_ring_buffers d)
                  [k := read_n_from
                          (read_pointer
                             (b\<lparr>channel_data :=
                                  (channel_data b)
                                    [k := take off (channel_data b ! k) @ host_output p d num k
                                          @ drop (off + num) (channel_data b ! k)]\<rparr>)
                             (getMainBusNumInputChannels p + k) off num)
                          (sidechain_ring_buffers d ! k)]
           else sidechain_ring_buffers d)\<rparr>)"
  by (simp add: sync_channel_def Let_def write_pointer_def clear_samples_def host_output_def
      case_prod_beta)

lemma map_upd_step_conj:
  "k < n \<Longrightarrow>
   (map (\<lambda>channel. if channel < k \<and> c then f channel else g channel) [0..<n])[k := f k]
   = map (\<lambda>channel. if channel < Suc k \<and> c then f channel else g channel) [0..<n]" if c
  using that by (auto intro!: nth_equalityI simp: nth_list_update less_Suc_eq)

lemma map_no_step_conj:
  "map (\<lambda>channel. if channel < k \<and> c then f channel else g channel) [0..<n]
   = map (\<lambda>channel. if channel < Suc k \<and> c then f channel else g channel) [0..<n]" if "\<not> c"
  using that by simp

lemma sync_channel_synced:
  assumes "k < getMainBusNumInputChannels p"
    and "getMainBusNumInputChannels p \<le> length (input_ring_buffers pd)"
    and "getMainBusNumInputChannels p \<le> length (output_ring_buffers pd)"
    and "getMainBusNumInputChannels p \<le> length (sidechain_ring_buffers pd)"
    and "2 * getMainBusNumInputChannels p \<le> length (channel_data buffer)"
  shows "sync_channel p off num k (synced p off num k (buffer, pd))
         = synced p off num (Suc k) (buffer, pd)"
proof -
  let ?C = "getMainBusNumInputChannels p"
  obtain b d where bd: "synced p off num k (buffer, pd) = (b, d)" by (cases "synced p off num k (buffer, pd)")
  have k: "k < length (input_ring_buffers pd)" "k < length (output_ring_buffers pd)"
    "k < length (sidechain_ring_buffers pd)" "k < length (channel_data buffer)"
    "?C + k < length (channel_data buffer)" "?C + k \<noteq> k" "\<not> ?C + k < k"
    using assms by simp_all
  have b: "b = buffer\<lparr>channel_data :=
        map (\<lambda>channel.
               if channel < k
               then take off (channel_data buffer ! channel)
                    @ host_output p pd num channel
                    @ drop (off + num) (channel_data buffer ! channel)
               else channel_data buffer ! channel)
          [0..<length (channel_data buffer)]\<rparr>"
    using bd by (simp add: synced_def)
  have d: "d = pd\<lparr>input_ring_buffers :=
           map (\<lambda>channel.
                  if channel < k
                  then read_n_from (read_pointer buffer channel off num)
                         (input_ring_buffers pd ! channel)
                  else input_ring_buffers pd ! channel)
             [0..<length (input_ring_buffers pd)],
         output_ring_buffers :=
           map (\<lambda>channel.
                  if channel < k \<and> num_windows_processed pd \<ge> windowing_overlap_times p
                  then snd (copy_n_to num True (output_ring_buffers pd ! channel))
                  else output_ring_buffers pd ! channel)
             [0..<length (output_ring_buffers pd)],
         sidechain_ring_buffers :=
           map (\<lambda>channel.
                  if channel < k \<and> sidechain_active p
                  then read_n_from
                         (read_pointer buffer (getMainBusNumInputChannels p + channel) off num)
                         (sidechain_ring_buffers pd ! channel)
                  else sidechain_ring_buffers pd ! channel)
             [0..<length (sidechain_ring_buffers pd)]\<rparr>"
    using bd by (simp add: synced_def)
  have at_k: "channel_data b ! k = channel_data buffer ! k"
    "input_ring_buffers d ! k = input_ring_buffers pd ! k"
    "output_ring_buffers d ! k = output_ring_buffers pd ! k"
    "sidechain_ring_buffers d ! k = sidechain_ring_buffers pd ! k"
    "num_windows_processed d = num_windows_processed pd"
    using k by (simp_all add: b d)
  have ho: "host_output p d num k = host_output p pd num k"
    by (simp add: host_output_def at_k)
  have rp: "read_pointer b k off num = read_pointer buffer k off num"
    by (simp add: read_pointer_def at_k)
  have rp2: "read_pointer (b\<lparr>channel_data := (channel_data b)[k := x]\<rparr>) (?C + k) off num
             = read_pointer buffer (?C + k) off num" for x
    using k by (simp add: read_pointer_def b)
  have lens: "length (channel_data b) = length (channel_data buffer)"
    by (simp add: b)
  let ?fc = "\<lambda>channel. take off (channel_data buffer ! channel) @ host_output p pd num channel
                    @ drop (off + num) (channel_data buffer ! channel)"
  let ?fi = "\<lambda>channel. read_n_from (read_pointer buffer channel off num)
                         (input_ring_buffers pd ! channel)"
  let ?fo = "\<lambda>channel. snd (copy_n_to num True (output_ring_buffers pd ! channel))"
  let ?fs = "\<lambda>channel. read_n_from (read_pointer buffer (?C + channel) off num)
                         (sidechain_ring_buffers pd ! channel)"
  have cdb: "channel_data b = map (\<lambda>channel. if channel < k then ?fc channel
                                    else channel_data buffer ! channel)
                                [0..<length (channel_data buffer)]"
    by (simp add: b)
  have cd: "(channel_data b)[k := ?fc k]
        = map (\<lambda>channel. if channel < Suc k then ?fc channel else channel_data buffer ! channel)
            [0..<length (channel_data buffer)]"
    unfolding cdb by (rule map_upd_step [where f = ?fc, OF k(4)])
  have irbd: "input_ring_buffers d = map (\<lambda>channel. if channel < k then ?fi channel
                                    else input_ring_buffers pd ! channel)
                                [0..<length (input_ring_buffers pd)]"
    by (simp add: d)
  have irb: "(input_ring_buffers d)[k := ?fi k]
        = map (\<lambda>channel. if channel < Suc k then ?fi channel else input_ring_buffers pd ! channel)
             [0..<length (input_ring_buffers pd)]"
    unfolding irbd by (rule map_upd_step [where f = ?fi, OF k(1)])
  have orbd: "output_ring_buffers d
        = map (\<lambda>channel. if channel < k \<and> num_windows_processed pd \<ge> windowing_overlap_times p
                          then ?fo channel else output_ring_buffers pd ! channel)
             [0..<length (output_ring_buffers pd)]"
    by (simp add: d)
  have orb: "(if num_windows_processed pd \<ge> windowing_overlap_times p
           then (output_ring_buffers d)[k := ?fo k]
           else output_ring_buffers d)
        = map (\<lambda>channel.
                  if channel < Suc k \<and> num_windows_processed pd \<ge> windowing_overlap_times p
                  then ?fo channel else output_ring_buffers pd ! channel)
             [0..<length (output_ring_buffers pd)]"
  proof (cases "num_windows_processed pd \<ge> windowing_overlap_times p")
    case True
    show ?thesis
      unfolding orbd using map_upd_step_conj [where f = ?fo, OF True k(2)] True by simp
  next
    case False
    show ?thesis
      unfolding orbd using map_no_step_conj [where f = ?fo, OF False] False by simp
  qed
  have srbd: "sidechain_ring_buffers d
        = map (\<lambda>channel. if channel < k \<and> sidechain_active p
                          then ?fs channel else sidechain_ring_buffers pd ! channel)
             [0..<length (sidechain_ring_buffers pd)]"
    by (simp add: d)
  have srb: "(if sidechain_active p
           then (sidechain_ring_buffers d)[k := ?fs k]
           else sidechain_ring_buffers d)
        = map (\<lambda>channel.
                  if channel < Suc k \<and> sidechain_active p
                  then ?fs channel else sidechain_ring_buffers pd ! channel)
             [0..<length (sidechain_ring_buffers pd)]"
  proof (cases "sidechain_active p")
    case True
    show ?thesis
      unfolding srbd using map_upd_step_conj [where f = ?fs, OF True k(3)] True by simp
  next
    case False
    show ?thesis
      unfolding srbd using map_no_step_conj [where f = ?fs, OF False] False by simp
  qed
  have rp3: "read_pointer
               (b\<lparr>channel_data :=
                    map (\<lambda>channel. if channel < Suc k then ?fc channel
                                   else channel_data buffer ! channel)
                      [0..<length (channel_data buffer)]\<rparr>)
               (?C + k) off num
             = read_pointer buffer (?C + k) off num"
    using k assms(1) by (simp add: read_pointer_def)
  have "sync_channel p off num k (b, d)
        = (b\<lparr>channel_data := map (\<lambda>channel.
               if channel < Suc k
               then take off (channel_data buffer ! channel)
                    @ host_output p pd num channel
                    @ drop (off + num) (channel_data buffer ! channel)
               else channel_data buffer ! channel)
          [0..<length (channel_data buffer)]\<rparr>,
           d\<lparr>input_ring_buffers := map (\<lambda>channel.
                  if channel < Suc k
                  then read_n_from (read_pointer buffer channel off num)
                         (input_ring_buffers pd ! channel)
                  else input_ring_buffers pd ! channel)
             [0..<length (input_ring_buffers pd)],
             output_ring_buffers := map (\<lambda>channel.
                  if channel < Suc k \<and> num_windows_processed pd \<ge> windowing_overlap_times p
                  then snd (copy_n_to num True (output_ring_buffers pd ! channel))
                  else output_ring_buffers pd ! channel)
             [0..<length (output_ring_buffers pd)],
             sidechain_ring_buffers := map (\<lambda>channel.
                  if channel < Suc k \<and> sidechain_active p
                  then read_n_from (read_pointer buffer (?C + channel) off num)
                         (sidechain_ring_buffers pd ! channel)
                  else sidechain_ring_buffers pd ! channel)
             [0..<length (sidechain_ring_buffers pd)]\<rparr>)"
    unfolding sync_channel_eq
    by (simp only: at_k ho rp rp2 rp3 cd irb orb srb)
  also have "\<dots> = synced p off num (Suc k) (buffer, pd)"
    by (simp add: synced_def b d)
  finally show ?thesis by (simp add: bd)
qed

lemma sync_channels_synced:
  assumes "ring_vectors_sized p pd" and "2 * getMainBusNumInputChannels p \<le> length (channel_data buffer)"
  shows "sync_channels p off num (buffer, pd)
         = synced p off num (getMainBusNumInputChannels p) (buffer, pd)"
proof -
  have "k \<le> getMainBusNumInputChannels p \<Longrightarrow>
        fold (sync_channel p off num) [0..<k] (buffer, pd) = synced p off num k (buffer, pd)" for k
  proof (induction k)
    case 0
    then show ?case by (simp add: synced_0)
  next
    case (Suc k)
    then show ?case
      using assms by (simp add: sync_channel_synced ring_vectors_sized_def)
  qed
  then show ?thesis by (simp add: sync_channels_def)
qed

lemma sync_channels_fields:
  assumes "ring_vectors_sized p pd" and "2 * getMainBusNumInputChannels p \<le> length (channel_data buffer)"
  shows "channel_data (fst (sync_channels p off num (buffer, pd)))
         = map (\<lambda>channel.
               if channel < getMainBusNumInputChannels p
               then take off (channel_data buffer ! channel)
                    @ host_output p pd num channel
                    @ drop (off + num) (channel_data buffer ! channel)
               else channel_data buffer ! channel)
          [0..<length (channel_data buffer)]"
    and "getNumSamples (fst (sync_channels p off num (buffer, pd))) = getNumSamples buffer"
    and "input_ring_buffers (snd (sync_channels p off num (buffer, pd)))
         = map (\<lambda>channel. read_n_from (read_pointer buffer channel off num)
                              (input_ring_buffers pd ! channel))
             [0..<getMainBusNumInputChannels p]"
    and "output_ring_buffers (snd (sync_channels p off num (buffer, pd)))
         = (if num_windows_processed pd \<ge> windowing_overlap_times p
            then map (\<lambda>channel. snd (copy_n_to num True (output_ring_buffers pd ! channel)))
                   [0..<getMainBusNumInputChannels p]
            else output_ring_buffers pd)"
    and "sidechain_ring_buffers (snd (sync_channels p off num (buffer, pd)))
         = (if sidechain_active p
            then map (\<lambda>channel. read_n_from
                         (read_pointer buffer (getMainBusNumInputChannels p + channel) off num)
                         (sidechain_ring_buffers pd ! channel))
                   [0..<getMainBusNumInputChannels p]
            else sidechain_ring_buffers pd)"
  using assms(1)
  by (auto simp: sync_channels_synced [OF assms] synced_def ring_vectors_sized_def map_nth
           intro!: nth_equalityI)

lemma sync_channels_frame:
  assumes "ring_vectors_sized p pd" and "2 * getMainBusNumInputChannels p \<le> length (channel_data buffer)"
  shows "snd (sync_channels p off num (buffer, pd))
         = pd\<lparr>input_ring_buffers := input_ring_buffers (snd (sync_channels p off num (buffer, pd))),
               output_ring_buffers := output_ring_buffers (snd (sync_channels p off num (buffer, pd))),
               sidechain_ring_buffers := sidechain_ring_buffers (snd (sync_channels p off num (buffer, pd)))\<rparr>"
  by (simp add: sync_channels_synced [OF assms] synced_def)

section \<open>Ring buffers and blocks laid end to end\<close>


lemma length_read_n_from [simp]:
  "length (backing_store (read_n_from xs rb)) = length (backing_store rb)"
  by (induction xs arbitrary: rb) simp_all

lemma current_pos_read_n_from:
  "current_pos rb < length (backing_store rb) \<Longrightarrow>
   current_pos (read_n_from xs rb) = (current_pos rb + length xs) mod length (backing_store rb)"
proof (induction xs arbitrary: rb)
  case Nil
  then show ?case by simp
next
  case (Cons x xs)
  let ?rb = "rb\<lparr>backing_store := (backing_store rb)[current_pos rb := x],
                 current_pos := (current_pos rb + 1) mod length (backing_store rb)\<rparr>"
  have "0 < length (backing_store rb)" using Cons.prems by (cases "backing_store rb") simp_all
  then have "current_pos ?rb < length (backing_store ?rb)" by simp
  from Cons.IH [OF this] show ?case by (simp add: mod_add_left_eq)
qed



lemma buffer_fits_nth:
  assumes "buffer_fits p buffer" "channel < 2 * getMainBusNumInputChannels p"
  shows "length (channel_data buffer ! channel) = getNumSamples buffer"
  using assms by (simp add: buffer_fits_def list_all_length)






lemma ring_vectors_sized_sync_channels:
  assumes "ring_vectors_sized p pd" and "2 * getMainBusNumInputChannels p \<le> length (channel_data buffer)"
  shows "ring_vectors_sized p (snd (sync_channels p off num (buffer, pd)))"
  using assms(1)
  by (simp add: ring_vectors_sized_def sync_channels_fields(3-5) [OF assms])

lemma buffer_fits_length:
  "buffer_fits p buffer \<Longrightarrow> length (channel_data buffer) = 2 * getMainBusNumInputChannels p"
  by (simp add: buffer_fits_def)




section \<open>One sample ahead of a block\<close>

lemma buffer_fits_sync_channels:
  assumes "ring_vectors_sized p pd" and "buffer_fits p buffer"
    and "off + num \<le> getNumSamples buffer"
  shows "buffer_fits p (fst (sync_channels p off num (buffer, pd)))"
proof -
  let ?C = "getMainBusNumInputChannels p"
  have len: "2 * ?C \<le> length (channel_data buffer)"
    using assms(2) by (simp add: buffer_fits_def)
  note f = sync_channels_fields [OF assms(1) len, of off num]
  have "length (channel_data (fst (sync_channels p off num (buffer, pd))) ! channel)
        = getNumSamples buffer" if "channel < 2 * ?C" for channel
    using that assms(3) buffer_fits_nth [OF assms(2) that]
    by (simp add: f(1) buffer_fits_length [OF assms(2)])
  then show ?thesis
    using assms(2) by (simp add: buffer_fits_def list_all_length f(1,2))
qed

lemma ring_vectors_sized_stage:
  assumes "stage_respects process_fn" "ring_vectors_sized p pd"
  shows "ring_vectors_sized p ((process_fn pd n)\<lparr>num_windows_processed := w\<rparr>)"
  using assms by (simp add: stage_respects_def ring_vectors_sized_def)





lemma sync_channels_nothing:
  assumes "ring_vectors_sized p pd" and "2 * getMainBusNumInputChannels p \<le> length (channel_data buffer)"
  shows "sync_channels p off 0 (buffer, pd) = (buffer, pd)"
proof -
  note f = sync_channels_fields [OF assms, of off 0]
  have cd: "channel_data (fst (sync_channels p off 0 (buffer, pd))) = channel_data buffer"
    by (auto simp: f(1) host_output_def intro!: nth_equalityI)
  have b: "fst (sync_channels p off 0 (buffer, pd)) = buffer"
    using cd f(2) by (rule AudioBuffer.equality) simp
  have irb: "input_ring_buffers (snd (sync_channels p off 0 (buffer, pd))) = input_ring_buffers pd"
    using assms(1) by (auto simp: f(3) read_pointer_def ring_vectors_sized_def intro!: nth_equalityI)
  have orb: "output_ring_buffers (snd (sync_channels p off 0 (buffer, pd))) = output_ring_buffers pd"
    using assms(1) by (auto simp: f(4) ring_vectors_sized_def intro!: nth_equalityI)
  have srb: "sidechain_ring_buffers (snd (sync_channels p off 0 (buffer, pd)))
             = sidechain_ring_buffers pd"
    using assms(1) by (auto simp: f(5) read_pointer_def ring_vectors_sized_def intro!: nth_equalityI)
  have "snd (sync_channels p off 0 (buffer, pd)) = pd"
    by (subst sync_channels_frame [OF assms]) (simp add: irb orb srb)
  with b show ?thesis by (simp add: prod_eq_iff)
qed

lemma fft_window_size_sync_channels:
  assumes "ring_vectors_sized p pd" and "2 * getMainBusNumInputChannels p \<le> length (channel_data buffer)"
  shows "fft_window_size (snd (sync_channels p off num (buffer, pd))) = fft_window_size pd"
  by (subst sync_channels_frame [OF assms]) simp

lemma do_stft_data:
  assumes "getMainBusNumOutputChannels p \<le> getMainBusNumInputChannels p"
    and "ring_vectors_sized p pd"
    and "2 * getMainBusNumInputChannels p \<le> length (channel_data buffer)"
  shows "snd (do_stft p process_fn buffer pd)
         = snd (process_windows p process_fn (windowing_interval p pd)
                  (windows_to_process p buffer pd) (already_processed_samples p buffer pd)
                  (sync_channels p 0 (already_processed_samples p buffer pd) (buffer, pd)))"
proof -
  have e: "[getMainBusNumInputChannels p..<getMainBusNumOutputChannels p] = []"
    using assms(1) by simp
  show ?thesis
    by (cases "0 < already_processed_samples p buffer pd")
       (simp_all add: do_stft_def Let_def case_prod_beta e sync_channels_nothing [OF assms(2,3)])
qed

lemma process_windows_none [simp]:
  "snd (process_windows p process_fn hop 0 off bp) = bp"
  by (cases bp) simp


section \<open>Splitting a block\<close>

lemma first_ring_capacity_sync_channels:
  assumes "ring_vectors_sized p pd" and "2 * getMainBusNumInputChannels p \<le> length (channel_data buffer)"
    and "0 < getMainBusNumInputChannels p"
  shows "length (backing_store (input_ring_buffers (snd (sync_channels p off num (buffer, pd))) ! 0))
         = length (backing_store (input_ring_buffers pd ! 0))"
  using assms(3) by (simp add: sync_channels_fields(3) [OF assms(1,2)])

lemma process_windows_invariants:
  assumes "stage_respects process_fn" "0 < getMainBusNumInputChannels p"
  shows "ring_vectors_sized p pd \<Longrightarrow> buffer_fits p b \<Longrightarrow> off \<le> getNumSamples b \<Longrightarrow>
         buffer_fits p (fst (snd (process_windows p process_fn hop k off (b, pd))))
         \<and> getNumSamples (fst (snd (process_windows p process_fn hop k off (b, pd))))
           = getNumSamples b
         \<and> ring_vectors_sized p (snd (snd (process_windows p process_fn hop k off (b, pd))))
         \<and> fft_window_size (snd (snd (process_windows p process_fn hop k off (b, pd))))
           = fft_window_size pd
         \<and> length (backing_store
                     (input_ring_buffers
                        (snd (snd (process_windows p process_fn hop k off (b, pd)))) ! 0))
           = length (backing_store (input_ring_buffers pd ! 0))"
proof (induction k arbitrary: off b pd)
  case 0
  then show ?case by simp
next
  case (Suc k)
  let ?C = "getMainBusNumInputChannels p"
  let ?pd2 = "(process_fn pd ?C)\<lparr>num_windows_processed := num_windows_processed (process_fn pd ?C) + 1\<rparr>"
  let ?n = "min hop (getNumSamples b - off)"
  let ?X = "sync_channels p off ?n (b, ?pd2)"
  have rv2: "ring_vectors_sized p ?pd2"
    by (rule ring_vectors_sized_stage [OF assms(1) Suc.prems(1)])
  have len: "2 * ?C \<le> length (channel_data b)"
    using Suc.prems(2) by (simp add: buffer_fits_def)
  have le: "off + ?n \<le> getNumSamples b" using Suc.prems(3) by simp
  have bfX: "buffer_fits p (fst ?X)"
    by (rule buffer_fits_sync_channels [OF rv2 Suc.prems(2) le])
  have rvX: "ring_vectors_sized p (snd ?X)"
    by (rule ring_vectors_sized_sync_channels [OF rv2 len])
  have nX: "getNumSamples (fst ?X) = getNumSamples b"
    by (simp add: sync_channels_fields(2) [OF rv2 len])
  have "fft_window_size (snd ?X) = fft_window_size ?pd2"
    by (rule fft_window_size_sync_channels [OF rv2 len])
  also have "\<dots> = fft_window_size pd"
    using assms(1) by (simp add: stage_respects_def)
  finally have fwX: "fft_window_size (snd ?X) = fft_window_size pd" .
  have "length (backing_store (input_ring_buffers (snd ?X) ! 0))
        = length (backing_store (input_ring_buffers ?pd2 ! 0))"
    by (rule first_ring_capacity_sync_channels [OF rv2 len assms(2)])
  also have "\<dots> = length (backing_store (input_ring_buffers pd ! 0))"
    using assms(1) by (simp add: stage_respects_def)
  finally have capX: "length (backing_store (input_ring_buffers (snd ?X) ! 0))
              = length (backing_store (input_ring_buffers pd ! 0))" .
  have step: "snd (process_windows p process_fn hop (Suc k) off (b, pd))
              = snd (process_windows p process_fn hop k (off + ?n) (fst ?X, snd ?X))"
    by (simp add: Let_def case_prod_beta)
  have "off + ?n \<le> getNumSamples (fst ?X)" using le by (simp add: nX)
  from Suc.IH [OF rvX bfX this] nX fwX capX show ?case
    unfolding step by simp
qed

lemma do_stft_invariants:
  assumes "stage_respects process_fn" "driver_ready p pd" "buffer_fits p buffer"
  shows "buffer_fits p (fst (snd (do_stft p process_fn buffer pd)))"
    and "getNumSamples (fst (snd (do_stft p process_fn buffer pd))) = getNumSamples buffer"
    and "driver_ready p (snd (snd (do_stft p process_fn buffer pd)))"
proof -
  let ?C = "getMainBusNumInputChannels p"
  let ?a = "already_processed_samples p buffer pd"
  let ?X = "sync_channels p 0 ?a (buffer, pd)"
  have rv: "ring_vectors_sized p pd" and C: "0 < ?C"
    and out: "getMainBusNumOutputChannels p \<le> ?C"
    and hop: "0 < windowing_interval p pd"
    and dv: "windowing_interval p pd dvd length (backing_store (input_ring_buffers pd ! 0))"
    using assms(2) by (simp_all add: driver_ready_def)
  have len: "2 * ?C \<le> length (channel_data buffer)"
    using assms(3) by (simp add: buffer_fits_def)
  have a: "0 + ?a \<le> getNumSamples buffer" by (simp add: already_processed_samples_def)
  have bfX: "buffer_fits p (fst ?X)"
    by (rule buffer_fits_sync_channels [OF rv assms(3) a])
  have rvX: "ring_vectors_sized p (snd ?X)"
    by (rule ring_vectors_sized_sync_channels [OF rv len])
  have nX: "getNumSamples (fst ?X) = getNumSamples buffer"
    by (simp add: sync_channels_fields(2) [OF rv len])
  have "?a \<le> getNumSamples (fst ?X)" using a by (simp add: nX)
  note inv = process_windows_invariants [OF assms(1) C rvX bfX this,
      of "windowing_interval p pd" "windows_to_process p buffer pd"]
  have D: "snd (do_stft p process_fn buffer pd)
           = snd (process_windows p process_fn (windowing_interval p pd)
                    (windows_to_process p buffer pd) ?a (fst ?X, snd ?X))"
    by (simp add: do_stft_data [OF out rv len])
  show "buffer_fits p (fst (snd (do_stft p process_fn buffer pd)))"
    unfolding D using inv by simp
  show "getNumSamples (fst (snd (do_stft p process_fn buffer pd))) = getNumSamples buffer"
    unfolding D using inv nX by simp
  show "driver_ready p (snd (snd (do_stft p process_fn buffer pd)))"
    unfolding D using inv C out hop dv
    by (simp add: driver_ready_def windowing_interval_def
        fft_window_size_sync_channels [OF rv len]
        first_ring_capacity_sync_channels [OF rv len C])
qed






section \<open>Streams of blocks\<close>

lemma keeps_rings_refl: "keeps_rings pd pd"
  by (simp add: keeps_rings_def)

lemma keeps_rings_trans: "keeps_rings a b \<Longrightarrow> keeps_rings b c \<Longrightarrow> keeps_rings a c"
  by (simp add: keeps_rings_def)

lemma keeps_rings_fold:
  assumes "\<And>x s. keeps_rings s (f x s)"
  shows "keeps_rings pd (fold f xs pd)"
proof (induction xs arbitrary: pd)
  case Nil
  show ?case by (simp add: keeps_rings_refl)
next
  case (Cons x xs)
  show ?case using keeps_rings_trans [OF assms Cons] by simp
qed

lemma keeps_rings_compress_bin: "keeps_rings pd (compress_bin juce channel compressor_idx pd)"
  by (simp add: compress_bin_def keeps_rings_def Let_def case_prod_beta)

lemma keeps_rings_compress_bins: "keeps_rings pd (compress_bins juce channel pd)"
  unfolding compress_bins_def by (rule keeps_rings_fold) (rule keeps_rings_compress_bin)

lemma keeps_rings_process_channel: "keeps_rings pd (process_channel juce p channel pd)"
proof -
  have "keeps_rings (pd\<lparr>fft_scratch_buffer := x\<rparr>)
          (compress_bins juce channel (pd\<lparr>fft_scratch_buffer := x\<rparr>))" for x
    by (rule keeps_rings_compress_bins)
  then show ?thesis
    by (simp add: process_channel_def keeps_rings_def Let_def)
qed

lemma keeps_rings_accumulate_sidechain_channel:
  "keeps_rings pd (accumulate_sidechain_channel juce channel pd)"
  by (simp add: accumulate_sidechain_channel_def keeps_rings_def Let_def)

lemma keeps_rings_set_sidechain_threshold:
  "keeps_rings pd (set_sidechain_threshold input_channels compressor_idx pd)"
  by (simp add: set_sidechain_threshold_def keeps_rings_def)

lemma keeps_rings_sidechain_stage: "keeps_rings pd (sidechain_stage juce input_channels pd)"
  unfolding sidechain_stage_def Let_def
  by (rule keeps_rings_trans [OF keeps_rings_fold keeps_rings_fold])
     (rule keeps_rings_accumulate_sidechain_channel, rule keeps_rings_set_sidechain_threshold)

lemma keeps_rings_process_window: "keeps_rings pd (process_window juce p pd input_channels)"
  unfolding process_window_def
  by (rule keeps_rings_trans [OF _ keeps_rings_fold])
     (simp add: keeps_rings_sidechain_stage keeps_rings_refl, rule keeps_rings_process_channel)

lemma keeps_rings_bypass_channel: "keeps_rings pd (bypass_channel hop channel pd)"
  by (simp add: bypass_channel_def keeps_rings_def Let_def)

lemma keeps_rings_bypass_window: "keeps_rings pd (bypass_window p pd input_channels)"
  unfolding bypass_window_def Let_def
  by (rule keeps_rings_fold) (rule keeps_rings_bypass_channel)

lemma stage_respects_process_window: "stage_respects (process_window juce p)"
  using keeps_rings_process_window by (simp add: stage_respects_def keeps_rings_def)

lemma stage_respects_bypass_window: "stage_respects (bypass_window p)"
  using keeps_rings_bypass_window by (simp add: stage_respects_def keeps_rings_def)

lemma sync_channel_process_data_irrelevant [simp]:
  "sync_channel (p\<lparr>process_data := x\<rparr>) = sync_channel p"
  by (intro ext) (simp add: sync_channel_def)

lemma sync_channels_process_data_irrelevant [simp]:
  "sync_channels (p\<lparr>process_data := x\<rparr>) = sync_channels p"
  by (intro ext) (simp add: sync_channels_def)

lemma process_windows_process_data_irrelevant [simp]:
  "process_windows (p\<lparr>process_data := x\<rparr>) process_fn hop k off bp
   = process_windows p process_fn hop k off bp"
proof (induction k arbitrary: off bp)
  case 0
  show ?case by (cases bp) simp
next
  case (Suc k)
  show ?case by (cases bp) (simp add: Suc Let_def)
qed

lemma schedule_process_data_irrelevant [simp]:
  "windowing_interval (p\<lparr>process_data := x\<rparr>) pd = windowing_interval p pd"
  "already_processed_samples (p\<lparr>process_data := x\<rparr>) buffer pd
   = already_processed_samples p buffer pd"
  "windows_to_process (p\<lparr>process_data := x\<rparr>) buffer pd = windows_to_process p buffer pd"
  by (simp_all add: windowing_interval_def already_processed_samples_def windows_to_process_def)

lemma do_stft_process_data_irrelevant [simp]:
  "do_stft (p\<lparr>process_data := x\<rparr>) process_fn buffer pd = do_stft p process_fn buffer pd"
  by (simp add: do_stft_def Let_def cong: if_cong)

lemma process_window_process_data_irrelevant [simp]:
  "process_window juce (p\<lparr>process_data := x\<rparr>) = process_window juce p"
proof -
  have "process_channel juce (p\<lparr>process_data := x\<rparr>) = process_channel juce p"
    by (intro ext) (simp add: process_channel_def)
  then show ?thesis by (intro ext) (simp add: process_window_def)
qed

lemma update_compressors_fields [simp]:
  "getMainBusNumInputChannels (fst (update_compressors p pd)) = getMainBusNumInputChannels p"
  "getMainBusNumOutputChannels (fst (update_compressors p pd)) = getMainBusNumOutputChannels p"
  "windowing_overlap_times (fst (update_compressors p pd)) = windowing_overlap_times p"
  "sidechain_active (fst (update_compressors p pd)) = sidechain_active p"
  "compressor_settings_changed (fst (update_compressors p pd)) = compressor_settings_changed p"
  "process_data (fst (update_compressors p pd)) = process_data p"
  "input_ring_buffers (snd (update_compressors p pd)) = input_ring_buffers pd"
  "output_ring_buffers (snd (update_compressors p pd)) = output_ring_buffers pd"
  "sidechain_ring_buffers (snd (update_compressors p pd)) = sidechain_ring_buffers pd"
  "fft_window_size (snd (update_compressors p pd)) = fft_window_size pd"
  "num_windows_processed (snd (update_compressors p pd)) = num_windows_processed pd"
  by (simp_all add: update_compressors_def Let_def)

lemma apply_compressor_settings_fields [simp]:
  "getMainBusNumInputChannels (apply_compressor_settings p) = getMainBusNumInputChannels p"
  "getMainBusNumOutputChannels (apply_compressor_settings p) = getMainBusNumOutputChannels p"
  "windowing_overlap_times (apply_compressor_settings p) = windowing_overlap_times p"
  "sidechain_active (apply_compressor_settings p) = sidechain_active p"
  "compressor_settings_changed (apply_compressor_settings p) = False"
  "needs_swap (process_data (apply_compressor_settings p)) = False"
  "input_ring_buffers (active (process_data (apply_compressor_settings p)))
   = input_ring_buffers (active (get (process_data p)))"
  "output_ring_buffers (active (process_data (apply_compressor_settings p)))
   = output_ring_buffers (active (get (process_data p)))"
  "sidechain_ring_buffers (active (process_data (apply_compressor_settings p)))
   = sidechain_ring_buffers (active (get (process_data p)))"
  "fft_window_size (active (process_data (apply_compressor_settings p)))
   = fft_window_size (active (get (process_data p)))"
  "num_windows_processed (active (process_data (apply_compressor_settings p)))
   = num_windows_processed (active (get (process_data p)))"
  by (simp_all add: apply_compressor_settings_def Let_def case_prod_beta get_def)

lemma driver_ready_apply_compressor_settings:
  "processor_ready p \<Longrightarrow>
   driver_ready (apply_compressor_settings p) (active (process_data (apply_compressor_settings p)))"
  by (simp add: processor_ready_def driver_ready_def ring_vectors_sized_def windowing_interval_def)

lemma buffer_fits_apply_compressor_settings [simp]:
  "buffer_fits (apply_compressor_settings p) buffer = buffer_fits p buffer"
  by (simp add: buffer_fits_def)


lemma processBlock_eq:
  "processBlock juce buffer p
   = (fst (snd (do_stft (apply_compressor_settings p)
                  (process_window juce (apply_compressor_settings p)) buffer
                  (active (process_data (apply_compressor_settings p))))),
      (apply_compressor_settings p)
        \<lparr>process_data :=
           (process_data (apply_compressor_settings p))
             \<lparr>active :=
                snd (snd (do_stft (apply_compressor_settings p)
                            (process_window juce (apply_compressor_settings p)) buffer
                            (active (process_data (apply_compressor_settings p)))))\<rparr>\<rparr>)"
  by (simp add: processBlock_def Let_def case_prod_beta)


lemma processBlock_fields [simp]:
  "getMainBusNumInputChannels (snd (processBlock juce buffer p)) = getMainBusNumInputChannels p"
  "getMainBusNumOutputChannels (snd (processBlock juce buffer p)) = getMainBusNumOutputChannels p"
  "windowing_overlap_times (snd (processBlock juce buffer p)) = windowing_overlap_times p"
  by (simp_all add: processBlock_eq)


lemma buffer_fits_processBlock:
  assumes "processor_ready p" "buffer_fits p buffer"
  shows "buffer_fits p (fst (processBlock juce buffer p))"
proof -
  let ?p1 = "apply_compressor_settings p"
  have "buffer_fits ?p1 (fst (snd (do_stft ?p1 (process_window juce ?p1) buffer
                                    (active (process_data ?p1)))))"
    using driver_ready_apply_compressor_settings [OF assms(1)] assms(2)
    by (intro do_stft_invariants(1) [OF stage_respects_process_window]) simp_all
  then show ?thesis by (simp add: processBlock_eq)
qed

lemma join_buffers_simps [simp]:
  "join_buffers p (buffer # buffers) = append_buffers buffer (join_buffers p buffers)"
  by (simp add: join_buffers_def)











end
